theory Spec2Isabelle
  imports Main
begin

section \<open>JSON values and C++ exceptions\<close>

text \<open>
  The engine passes \<open>nlohmann::json\<close> values everywhere. The model keeps the six kinds of
  value the engine distinguishes (\<open>is_null\<close>, \<open>is_string\<close>, \<open>is_array\<close>, \<open>is_object\<close>);
  numbers are integers. An object is a list of key/value pairs.
  The C++ expression \<open>json{}\<close> is the null value, \<open>json::array()\<close> the empty array and
  \<open>json::object()\<close> the empty object.
\<close>

datatype json =
    JNull
  | JBool bool
  | JInt int
  | JStr string
  | JArr "json list"
  | JObj "(string \<times> json) list"

fun is_null :: "json \<Rightarrow> bool" where
  "is_null JNull = True"
| "is_null _ = False"

fun is_string :: "json \<Rightarrow> bool" where
  "is_string (JStr _) = True"
| "is_string _ = False"

fun is_array :: "json \<Rightarrow> bool" where
  "is_array (JArr _) = True"
| "is_array _ = False"

fun is_object :: "json \<Rightarrow> bool" where
  "is_object (JObj _) = True"
| "is_object _ = False"

text \<open>
  What ends a call other than a returned value. \<open>Exn c w\<close> is a thrown object of a
  class \<open>c\<close> derived from \<open>std::exception\<close>, with its \<open>what()\<close> string; \<open>NonStd d\<close> is a thrown
  object of any other type (an \<open>int\<close>, a string, a class of the user's own). \<open>Undefined\<close> is
  not an exception: the computation has reached an operation whose result C++ does not
  define, and the model follows it no further.
\<close>

datatype exn =
    Exn (exn_class: string) (exn_what: string)
  | NonStd string
  | Undefined

text \<open>What a handler \<open>catch (const std::exception& e)\<close> catches.\<close>

fun is_std :: "exn \<Rightarrow> bool" where
  "is_std (Exn _ _) = True"
| "is_std _ = False"

text \<open>
  \<open>throw exc;\<close> with \<open>exc\<close> of static type \<open>const std::exception&\<close> throws a copy of the
  \<open>std::exception\<close> base subobject: the dynamic class of the thrown object is
  \<open>std::exception\<close>, and its \<open>what()\<close> is the string of the base class (the one libstdc++
  and libc++ return).
\<close>

definition slice_exn :: "exn \<Rightarrow> exn" where
  "slice_exn e = Exn ''std::exception'' ''std::exception''"

section \<open>Node lifecycle\<close>

text \<open>
  The observable events of one node activation, in the order they happen: the calls of
  the lifecycle methods with their arguments, and the sleeps of the retry loop with
  their duration in milliseconds.
\<close>

datatype event =
    is_PrepCall: PrepCall json
  | is_ExecCall: ExecCall json
  | is_SleepMs: SleepMs int
  | is_FallbackCall: FallbackCall json exn
  | is_PostCall: PostCall json json json

text \<open>
  The virtual lifecycle methods of a concrete node class. A method may read and write
  the data members the subclass adds (type \<open>'u\<close>), so each takes them and returns them.
  A method either returns a value (\<open>Inr\<close>) or throws (\<open>Inl\<close>). \<open>post\<close> receives the shared
  state and returns it, since the nodes of the repository write to it there.
\<close>

record 'u node_methods =
  prep :: "'u \<Rightarrow> json \<Rightarrow> (exn + json) \<times> 'u"
  exec :: "'u \<Rightarrow> json \<Rightarrow> (exn + json) \<times> 'u"
  exec_fallback :: "'u \<Rightarrow> json \<Rightarrow> exn \<Rightarrow> (exn + json) \<times> 'u"
  post :: "'u \<Rightarrow> json \<Rightarrow> json \<Rightarrow> json \<Rightarrow> (exn + json) \<times> 'u \<times> json"

text \<open>The data members of \<open>Node\<close>, and \<open>self\<close> for those of the subclass.\<close>

record 'u node =
  max_retries :: int
  wait :: int
  cur_retry :: int
  self :: 'u

text \<open>
  The constructor \<open>Node(int max_retries = 1, int wait_ms = 0)\<close>, with the members of the
  subclass.
\<close>

definition Node_ctor :: "int \<Rightarrow> int \<Rightarrow> 'u \<Rightarrow> 'u node" where
  "Node_ctor max_r wait_ms u = \<lparr>max_retries = max_r, wait = wait_ms, cur_retry = 0, self = u\<rparr>"

text \<open>
  \<open>AsyncNode\<close> and \<open>BatchNode\<close> have \<open>Node\<close> as a virtual base, and so have
  \<open>AsyncBatchNode\<close> and \<open>AsyncParallelBatchNode\<close> through them. A virtual base is
  initialised by the most derived class. The initialiser \<open>Node(max_retries, wait_ms)\<close> in
  the constructor of \<open>AsyncNode\<close> or \<open>BatchNode\<close> is therefore skipped in every object of a
  class derived from them, and a constructor that names its direct base only, as
  \<open>FailingAnalysisNode() : AsyncNode(3, 50)\<close> and every other one of the repository does,
  leaves \<open>Node\<close> to its default arguments. \<open>AsyncNode\<close> is abstract, so all its objects
  are of derived classes.
\<close>

definition derived_ctor :: "int \<Rightarrow> int \<Rightarrow> 'u \<Rightarrow> 'u node" where
  "derived_ctor max_r wait_ms u = Node_ctor 1 0 u"

text \<open>The default \<open>Node::exec_fallback\<close>: \<open>throw exc;\<close>.\<close>

definition Node_exec_fallback :: "'u \<Rightarrow> json \<Rightarrow> exn \<Rightarrow> (exn + json) \<times> 'u" where
  "Node_exec_fallback u prep_res exc = (Inl (slice_exn exc), u)"

subsection \<open>Retry loop\<close>

text \<open>
  \<open>wait_ * (1 << (cur_retry_ - 1))\<close>, computed in \<open>int\<close>, which is 32 bits wide. The
  source determines the value only while the shift and the product stay in the
  range of \<open>int\<close>; beyond it the result is \<open>None\<close>.
\<close>

definition backoff_time :: "int \<Rightarrow> int \<Rightarrow> int option" where
  "backoff_time wait_ms cur =
     (if 0 \<le> cur - 1 \<and> cur - 1 < 31
         \<and> - (2 ^ 31) \<le> wait_ms * 2 ^ nat (cur - 1) \<and> wait_ms * 2 ^ nat (cur - 1) < 2 ^ 31
      then Some (wait_ms * 2 ^ nat (cur - 1)) else None)"

text \<open>
  The \<open>while\<close> loop of \<open>Node::_exec\<close>, from a given value of \<open>cur_retry_\<close>. It returns the
  outcome, the final \<open>cur_retry_\<close>, the subclass members and the events in order. The
  handler catches \<open>const std::exception&\<close>: anything else \<open>exec\<close> throws leaves the loop
  at once.
\<close>

function retry_loop ::
  "'u node_methods \<Rightarrow> int \<Rightarrow> int \<Rightarrow> json \<Rightarrow> int \<Rightarrow> 'u \<Rightarrow>
     (exn + json) \<times> int \<times> 'u \<times> event list" where
  "retry_loop m max_r wait_ms prep_res cur u =
    (if cur < max_r then
       (case exec m u prep_res of
          (Inr result, u') \<Rightarrow> (Inr result, 0, u', [ExecCall prep_res])
        | (Inl e, u') \<Rightarrow>
            (if \<not> is_std e then (Inl e, cur, u', [ExecCall prep_res])
             else if cur + 1 \<ge> max_r then
               (case exec_fallback m u' prep_res e of
                  (out, u'') \<Rightarrow>
                    (out, cur + 1, u'', [ExecCall prep_res, FallbackCall prep_res e]))
             else if wait_ms > 0 then
               (case backoff_time wait_ms (cur + 1) of
                  None \<Rightarrow> (Inl Undefined, cur + 1, u', [ExecCall prep_res])
                | Some backoff \<Rightarrow>
                    (case retry_loop m max_r wait_ms prep_res (cur + 1) u' of
                       (out, c, u'', tr) \<Rightarrow>
                         (out, c, u'', ExecCall prep_res # SleepMs backoff # tr)))
             else
               (case retry_loop m max_r wait_ms prep_res (cur + 1) u' of
                  (out, c, u'', tr) \<Rightarrow> (out, c, u'', ExecCall prep_res # tr))))
     else (Inl (Exn ''std::runtime_error'' ''Unexpected state in retry logic''), cur, u, []))"
  by pat_completeness auto
termination
  by (relation "measure (\<lambda>(m, max_r, wait_ms, prep_res, cur, u). nat (max_r - cur))") auto

declare retry_loop.simps [simp del]

text \<open>\<open>Node::_exec\<close>: reset \<open>cur_retry_\<close>, then the loop.\<close>

definition Node__exec ::
  "'u node_methods \<Rightarrow> 'u node \<Rightarrow> json \<Rightarrow> (exn + json) \<times> 'u node \<times> event list" where
  "Node__exec m n prep_res =
     (case retry_loop m (max_retries n) (wait n) prep_res 0 (self n) of
        (out, c, u', tr) \<Rightarrow> (out, n\<lparr>cur_retry := c, self := u'\<rparr>, tr))"

text \<open>\<open>BaseNode::_exec\<close>: the plain call of \<open>exec\<close>.\<close>

definition BaseNode__exec ::
  "'u node_methods \<Rightarrow> 'u node \<Rightarrow> json \<Rightarrow> (exn + json) \<times> 'u node \<times> event list" where
  "BaseNode__exec m n prep_res =
     (case exec m (self n) prep_res of (out, u') \<Rightarrow> (out, n\<lparr>self := u'\<rparr>, [ExecCall prep_res]))"

subsection \<open>Sequential batch node\<close>

text \<open>
  The \<open>for\<close> loop of \<open>BatchNode::_exec\<close> over the items still to process, with the
  \<open>results\<close> array built so far. An exception of \<open>Node::_exec\<close> leaves the loop.
\<close>

fun batch_loop ::
  "'u node_methods \<Rightarrow> 'u node \<Rightarrow> json list \<Rightarrow> json list \<Rightarrow>
     (exn + json list) \<times> 'u node \<times> event list" where
  "batch_loop m n [] results = (Inr results, n, [])"
| "batch_loop m n (item # items) results =
     (case Node__exec m n item of
        (Inl e, n', tr) \<Rightarrow> (Inl e, n', tr)
      | (Inr item_result, n', tr) \<Rightarrow>
          (case batch_loop m n' items (results @ [item_result]) of
             (out, n'', tr') \<Rightarrow> (out, n'', tr @ tr')))"

definition BatchNode__exec ::
  "'u node_methods \<Rightarrow> 'u node \<Rightarrow> json \<Rightarrow> (exn + json) \<times> 'u node \<times> event list" where
  "BatchNode__exec m n items =
     (case items of
        JArr xs \<Rightarrow>
          (case batch_loop m n xs [] of
             (Inl e, n', tr) \<Rightarrow> (Inl e, n', tr)
           | (Inr results, n', tr) \<Rightarrow> (Inr (JArr results), n', tr))
      | _ \<Rightarrow>
          (case Node__exec m n items of
             (Inl e, n', tr) \<Rightarrow> (Inl e, n', tr)
           | (Inr item_result, n', tr) \<Rightarrow> (Inr (JArr [item_result]), n', tr)))"

subsection \<open>Running one node\<close>

text \<open>
  \<open>BaseNode::_run\<close>: \<open>prep\<close>, then the virtual \<open>_exec\<close> (the first argument), then \<open>post\<close>.
  Nothing is caught here: an exception of any of the three ends the run. The result is
  the outcome, the node, the shared state and the events.
\<close>

definition BaseNode__run ::
  "('u node_methods \<Rightarrow> 'u node \<Rightarrow> json \<Rightarrow> (exn + json) \<times> 'u node \<times> event list) \<Rightarrow>
   'u node_methods \<Rightarrow> 'u node \<Rightarrow> json \<Rightarrow> (exn + json) \<times> 'u node \<times> json \<times> event list" where
  "BaseNode__run vexec m n shared =
     (case prep m (self n) shared of
        (Inl e, u1) \<Rightarrow> (Inl e, n\<lparr>self := u1\<rparr>, shared, [PrepCall shared])
      | (Inr prep_res, u1) \<Rightarrow>
          (case vexec m (n\<lparr>self := u1\<rparr>) prep_res of
             (Inl e, n2, tr) \<Rightarrow> (Inl e, n2, shared, PrepCall shared # tr)
           | (Inr exec_res, n2, tr) \<Rightarrow>
               (case post m (self n2) shared prep_res exec_res of
                  (out, u3, shared') \<Rightarrow>
                    (out, n2\<lparr>self := u3\<rparr>, shared',
                     PrepCall shared # tr @ [PostCall shared prep_res exec_res]))))"

text \<open>\<open>AsyncNode::_run\<close>: the synchronous entry of an asynchronous node throws at once.\<close>

definition AsyncNode__run ::
  "'u node_methods \<Rightarrow> 'u node \<Rightarrow> json \<Rightarrow> (exn + json) \<times> 'u node \<times> json \<times> event list" where
  "AsyncNode__run m n shared =
     (Inl (Exn ''std::runtime_error''
             ''AsyncNode requires async execution - use run_async() instead of run()''),
      n, shared, [])"

text \<open>
  The node classes and the final overrider of the virtual \<open>_run\<close> in each.
  \<open>AsyncBatchNode\<close> and \<open>AsyncParallelBatchNode\<close> derive from \<open>AsyncNode\<close> and
  \<open>BatchNode\<close>; only \<open>AsyncNode\<close> overrides \<open>_run\<close>.
\<close>

datatype node_kind =
    KBaseNode
  | KNode
  | KBatchNode
  | KAsyncNode
  | KAsyncBatchNode
  | KAsyncParallelBatchNode

fun is_async_kind :: "node_kind \<Rightarrow> bool" where
  "is_async_kind KAsyncNode = True"
| "is_async_kind KAsyncBatchNode = True"
| "is_async_kind KAsyncParallelBatchNode = True"
| "is_async_kind _ = False"

fun virtual__run ::
  "node_kind \<Rightarrow> 'u node_methods \<Rightarrow> 'u node \<Rightarrow> json \<Rightarrow>
     (exn + json) \<times> 'u node \<times> json \<times> event list" where
  "virtual__run KBaseNode m n shared = BaseNode__run BaseNode__exec m n shared"
| "virtual__run KNode m n shared = BaseNode__run Node__exec m n shared"
| "virtual__run KBatchNode m n shared = BaseNode__run BatchNode__exec m n shared"
| "virtual__run KAsyncNode m n shared = AsyncNode__run m n shared"
| "virtual__run KAsyncBatchNode m n shared = AsyncNode__run m n shared"
| "virtual__run KAsyncParallelBatchNode m n shared = AsyncNode__run m n shared"

text \<open>\<open>BaseNode::run\<close>: the virtual \<open>_run\<close>; the check of the successors does nothing.\<close>

definition BaseNode_run ::
  "node_kind \<Rightarrow> 'u node_methods \<Rightarrow> 'u node \<Rightarrow> json \<Rightarrow>
     (exn + json) \<times> 'u node \<times> json \<times> event list" where
  "BaseNode_run k m n shared = virtual__run k m n shared"

section \<open>Asynchronous nodes\<close>

text \<open>
  \<open>AsyncNode\<close> adds asynchronous counterparts of the four methods. Each is started with
  \<open>std::async\<close> and its future is read with \<open>get()\<close> before anything else happens, so
  within one node the calls are sequential: a call returns its value, or \<open>get()\<close>
  rethrows its exception.
\<close>

record 'u async_methods =
  prep_async :: "'u \<Rightarrow> json \<Rightarrow> (exn + json) \<times> 'u"
  exec_async :: "'u \<Rightarrow> json \<Rightarrow> (exn + json) \<times> 'u"
  exec_fallback_async :: "'u \<Rightarrow> json \<Rightarrow> exn \<Rightarrow> (exn + json) \<times> 'u"
  post_async :: "'u \<Rightarrow> json \<Rightarrow> json \<Rightarrow> json \<Rightarrow> (exn + json) \<times> 'u \<times> json"

text \<open>
  The loop of \<open>AsyncNode::_exec_async\<close>. The counter is a local variable here, and the
  member \<open>cur_retry_\<close> is not touched. The handler is the same.
\<close>

function async_retry_loop ::
  "'u async_methods \<Rightarrow> int \<Rightarrow> int \<Rightarrow> json \<Rightarrow> int \<Rightarrow> 'u \<Rightarrow> (exn + json) \<times> 'u \<times> event list" where
  "async_retry_loop am max_r wait_ms prep_res cur u =
    (if cur < max_r then
       (case exec_async am u prep_res of
          (Inr result, u') \<Rightarrow> (Inr result, u', [ExecCall prep_res])
        | (Inl e, u') \<Rightarrow>
            (if \<not> is_std e then (Inl e, u', [ExecCall prep_res])
             else if cur + 1 \<ge> max_r then
               (case exec_fallback_async am u' prep_res e of
                  (out, u'') \<Rightarrow> (out, u'', [ExecCall prep_res, FallbackCall prep_res e]))
             else if wait_ms > 0 then
               (case backoff_time wait_ms (cur + 1) of
                  None \<Rightarrow> (Inl Undefined, u', [ExecCall prep_res])
                | Some backoff \<Rightarrow>
                    (case async_retry_loop am max_r wait_ms prep_res (cur + 1) u' of
                       (out, u'', tr) \<Rightarrow> (out, u'', ExecCall prep_res # SleepMs backoff # tr)))
             else
               (case async_retry_loop am max_r wait_ms prep_res (cur + 1) u' of
                  (out, u'', tr) \<Rightarrow> (out, u'', ExecCall prep_res # tr))))
     else (Inl (Exn ''std::runtime_error'' ''Unexpected state in async retry logic''), u, []))"
  by pat_completeness auto
termination
  by (relation "measure (\<lambda>(am, max_r, wait_ms, prep_res, cur, u). nat (max_r - cur))") auto

declare async_retry_loop.simps [simp del]

definition AsyncNode__exec_async ::
  "'u async_methods \<Rightarrow> 'u node \<Rightarrow> json \<Rightarrow> (exn + json) \<times> 'u node \<times> event list" where
  "AsyncNode__exec_async am n prep_res =
     (case async_retry_loop am (max_retries n) (wait n) prep_res 0 (self n) of
        (out, u', tr) \<Rightarrow> (out, n\<lparr>self := u'\<rparr>, tr))"

text \<open>
  \<open>AsyncNode::_run_async\<close>: \<open>prep_async\<close>, the virtual \<open>_exec_async\<close>, \<open>post_async\<close>.
\<close>

definition AsyncNode__run_async ::
  "('u async_methods \<Rightarrow> 'u node \<Rightarrow> json \<Rightarrow> (exn + json) \<times> 'u node \<times> event list) \<Rightarrow>
   'u async_methods \<Rightarrow> 'u node \<Rightarrow> json \<Rightarrow> (exn + json) \<times> 'u node \<times> json \<times> event list" where
  "AsyncNode__run_async vexec_async am n sh =
     (case prep_async am (self n) sh of
        (Inl e, u1) \<Rightarrow> (Inl e, n\<lparr>self := u1\<rparr>, sh, [PrepCall sh])
      | (Inr prep_res, u1) \<Rightarrow>
          (case vexec_async am (n\<lparr>self := u1\<rparr>) prep_res of
             (Inl e, n2, tr) \<Rightarrow> (Inl e, n2, sh, PrepCall sh # tr)
           | (Inr exec_res, n2, tr) \<Rightarrow>
               (case post_async am (self n2) sh prep_res exec_res of
                  (action, u3, sh') \<Rightarrow>
                    (action, n2\<lparr>self := u3\<rparr>, sh',
                     PrepCall sh # tr @ [PostCall sh prep_res exec_res]))))"

text \<open>\<open>AsyncBatchNode::_exec_async\<close>: the items one after the other.\<close>

fun async_batch_loop ::
  "'u async_methods \<Rightarrow> 'u node \<Rightarrow> json list \<Rightarrow> json list \<Rightarrow>
     (exn + json list) \<times> 'u node \<times> event list" where
  "async_batch_loop am n [] results = (Inr results, n, [])"
| "async_batch_loop am n (item # items) results =
     (case AsyncNode__exec_async am n item of
        (Inl e, n', tr) \<Rightarrow> (Inl e, n', tr)
      | (Inr item_result, n', tr) \<Rightarrow>
          (case async_batch_loop am n' items (results @ [item_result]) of
             (out, n'', tr') \<Rightarrow> (out, n'', tr @ tr')))"

definition AsyncBatchNode__exec_async ::
  "'u async_methods \<Rightarrow> 'u node \<Rightarrow> json \<Rightarrow> (exn + json) \<times> 'u node \<times> event list" where
  "AsyncBatchNode__exec_async am n items =
     (case items of
        JArr xs \<Rightarrow>
          (case async_batch_loop am n xs [] of
             (Inl e, n', tr) \<Rightarrow> (Inl e, n', tr)
           | (Inr results, n', tr) \<Rightarrow> (Inr (JArr results), n', tr))
      | _ \<Rightarrow>
          (case AsyncNode__exec_async am n items of
             (Inl e, n', tr) \<Rightarrow> (Inl e, n', tr)
           | (Inr item_result, n', tr) \<Rightarrow> (Inr (JArr [item_result]), n', tr)))"

subsection \<open>Parallel batch node\<close>

text \<open>
  \<open>AsyncParallelBatchNode::_exec_async\<close> starts one task per item, each running the
  retry loop of \<open>AsyncNode::_exec_async\<close> on its item in a thread of its own, and then
  reads the futures in the order of the items. A task is either still in its loop, with
  its item and its counter, or done with an outcome. One step of a task is one
  iteration of its loop. The order in which the threads take their steps is not
  determined by the program: it is the schedule, a list of task indices. After the
  schedule the futures are read in order; \<open>get()\<close> waits for its task, that is, runs it
  to its end, and rethrows its exception; the futures left over are then joined by
  their destructors. The sleeps of a task are not recorded here.
\<close>

datatype task = Running json int | Done "exn + json"

definition task_step :: "'u async_methods \<Rightarrow> int \<Rightarrow> int \<Rightarrow> task \<Rightarrow> 'u \<Rightarrow> task \<times> 'u" where
  "task_step am max_r wait_ms t u =
     (case t of
        Done x \<Rightarrow> (Done x, u)
      | Running item cur \<Rightarrow>
          (if cur < max_r then
             (case exec_async am u item of
                (Inr result, u') \<Rightarrow> (Done (Inr result), u')
              | (Inl e, u') \<Rightarrow>
                  (if \<not> is_std e then (Done (Inl e), u')
                   else if cur + 1 \<ge> max_r then
                     (case exec_fallback_async am u' item e of (out, u'') \<Rightarrow> (Done out, u''))
                   else if wait_ms > 0 \<and> backoff_time wait_ms (cur + 1) = None
                     then (Done (Inl Undefined), u')
                   else (Running item (cur + 1), u')))
           else (Done (Inl (Exn ''std::runtime_error'' ''Unexpected state in async retry logic'')), u)))"

fun run_schedule ::
  "'u async_methods \<Rightarrow> int \<Rightarrow> int \<Rightarrow> nat list \<Rightarrow> task list \<Rightarrow> 'u \<Rightarrow> task list \<times> 'u" where
  "run_schedule am max_r wait_ms [] ts u = (ts, u)"
| "run_schedule am max_r wait_ms (i # sched) ts u =
     (if i < length ts then
        (case task_step am max_r wait_ms (ts ! i) u of
           (t', u') \<Rightarrow> run_schedule am max_r wait_ms sched (ts[i := t']) u')
      else run_schedule am max_r wait_ms sched ts u)"

definition task_join :: "'u async_methods \<Rightarrow> int \<Rightarrow> int \<Rightarrow> task \<Rightarrow> 'u \<Rightarrow> (exn + json) \<times> 'u" where
  "task_join am max_r wait_ms t u =
     (case t of
        Done x \<Rightarrow> (x, u)
      | Running item cur \<Rightarrow>
          (case async_retry_loop am max_r wait_ms item cur u of (out, u', tr) \<Rightarrow> (out, u')))"

definition join_all :: "'u async_methods \<Rightarrow> int \<Rightarrow> int \<Rightarrow> task list \<Rightarrow> 'u \<Rightarrow> 'u" where
  "join_all am max_r wait_ms ts u = foldl (\<lambda>v t. snd (task_join am max_r wait_ms t v)) u ts"

fun collect ::
  "'u async_methods \<Rightarrow> int \<Rightarrow> int \<Rightarrow> task list \<Rightarrow> json list \<Rightarrow> 'u \<Rightarrow> (exn + json list) \<times> 'u" where
  "collect am max_r wait_ms [] results u = (Inr results, u)"
| "collect am max_r wait_ms (t # ts) results u =
     (case task_join am max_r wait_ms t u of
        (Inl e, u') \<Rightarrow> (Inl e, join_all am max_r wait_ms ts u')
      | (Inr item_result, u') \<Rightarrow> collect am max_r wait_ms ts (results @ [item_result]) u')"

definition AsyncParallelBatchNode__exec_async ::
  "nat list \<Rightarrow> 'u async_methods \<Rightarrow> 'u node \<Rightarrow> json \<Rightarrow> (exn + json) \<times> 'u node" where
  "AsyncParallelBatchNode__exec_async sched am n items =
     (case items of
        JArr xs \<Rightarrow>
          (case run_schedule am (max_retries n) (wait n) sched
                  (map (\<lambda>item. Running item 0) xs) (self n) of
             (futures, u) \<Rightarrow>
               (case collect am (max_retries n) (wait n) futures [] u of
                  (Inl e, u') \<Rightarrow> (Inl e, n\<lparr>self := u'\<rparr>)
                | (Inr results, u') \<Rightarrow> (Inr (JArr results), n\<lparr>self := u'\<rparr>)))
      | _ \<Rightarrow>
          (case AsyncNode__exec_async am n items of
             (Inl e, n', tr) \<Rightarrow> (Inl e, n')
           | (Inr item_result, n', tr) \<Rightarrow> (Inr (JArr [item_result]), n')))"

section \<open>Flow\<close>

subsection \<open>Merging parameters\<close>

text \<open>
  \<open>json::update\<close> of the JSON library, as the library documents it: a null receiver
  becomes an empty object first; a receiver or an argument that is not an object throws
  \<open>type_error\<close> 312; otherwise each pair of the argument is stored under its key,
  replacing the value of a key that is present. The order of the keys of an object is
  not modelled: objects are compared by lookup.
\<close>

fun type_name :: "json \<Rightarrow> string" where
  "type_name JNull = ''null''"
| "type_name (JBool _) = ''boolean''"
| "type_name (JInt _) = ''number''"
| "type_name (JStr _) = ''string''"
| "type_name (JArr _) = ''array''"
| "type_name (JObj _) = ''object''"

definition type_error_312 :: "json \<Rightarrow> exn" where
  "type_error_312 j =
     Exn ''nlohmann::json::type_error''
         (''[json.exception.type_error.312] cannot use update() with '' @ type_name j)"

fun obj_set :: "string \<Rightarrow> json \<Rightarrow> (string \<times> json) list \<Rightarrow> (string \<times> json) list" where
  "obj_set k v [] = [(k, v)]"
| "obj_set k v ((k', v') # kvs) =
     (if k = k' then (k, v) # kvs else (k', v') # obj_set k v kvs)"

definition json_update :: "json \<Rightarrow> json \<Rightarrow> exn + json" where
  "json_update obj j =
     (case (if is_null obj then JObj [] else obj) of
        JObj kvs \<Rightarrow>
          (case j of
             JObj upd \<Rightarrow> Inr (JObj (fold (\<lambda>(k, v). obj_set k v) upd kvs))
           | _ \<Rightarrow> Inl (type_error_312 j))
      | other \<Rightarrow> Inl (type_error_312 other))"


subsection \<open>The node graph\<close>

text \<open>
  A \<open>std::shared_ptr<BaseNode>\<close> is the identity of a node object, or \<open>None\<close> for
  \<open>nullptr\<close>. The objects live in a heap indexed by identity, so that several
  predecessors share one successor and cycles are possible.

  A node object as the orchestrator sees it: the members \<open>params_\<close> and \<open>successors_\<close> of
  \<open>BaseNode\<close>, the virtual \<open>_run\<close> of its class, whether it is an \<open>AsyncNode\<close> (the
  \<open>dynamic_pointer_cast\<close> of the asynchronous orchestrator) and then its \<open>run_async\<close>,
  and the remaining members. A run reads the parameter bag, and returns the outcome, the
  members and the shared state.
\<close>

type_synonym node_ptr = "nat option"

record 'u graph_node =
  params :: json
  successors :: "string \<Rightarrow> node_ptr option"
  is_async :: bool
  vrun :: "json \<Rightarrow> 'u \<Rightarrow> json \<Rightarrow> (exn + json) \<times> 'u \<times> json"
  vrun_async :: "json \<Rightarrow> 'u \<Rightarrow> json \<Rightarrow> (exn + json) \<times> 'u \<times> json"
  members :: 'u

definition set_params :: "'u graph_node \<Rightarrow> json \<Rightarrow> 'u graph_node" where
  "set_params nd ps = nd\<lparr>params := ps\<rparr>"

definition get_params :: "'u graph_node \<Rightarrow> json" where
  "get_params nd = params nd"

definition BaseNode_next :: "'u graph_node \<Rightarrow> node_ptr \<Rightarrow> string \<Rightarrow> 'u graph_node" where
  "BaseNode_next nd target action = nd\<lparr>successors := (successors nd)(action \<mapsto> target)\<rparr>"

definition get_successor :: "'u graph_node \<Rightarrow> string \<Rightarrow> node_ptr" where
  "get_successor nd action = (case successors nd action of Some target \<Rightarrow> target | None \<Rightarrow> None)"

text \<open>
  The state an orchestration works on: the node objects, the shared context, and the
  log of activations (which node was run, and with which parameter bag).
\<close>

record 'u world =
  heap :: "nat \<Rightarrow> 'u graph_node"
  ctx :: json
  activations :: "(nat \<times> json) list"

subsection \<open>Orchestration\<close>

text \<open>\<open>Flow::get_next_node\<close>\<close>

definition get_next_node :: "(nat \<Rightarrow> 'u graph_node) \<Rightarrow> node_ptr \<Rightarrow> string \<Rightarrow> node_ptr" where
  "get_next_node h current action =
     (case current of
        None \<Rightarrow> None
      | Some c \<Rightarrow>
          (case get_successor (h c) action of
             Some nxt \<Rightarrow> Some nxt
           | None \<Rightarrow>
               (if action \<noteq> ''default'' then
                  (case get_successor (h c) ''default'' of
                     Some nxt \<Rightarrow> Some nxt
                   | None \<Rightarrow> None)
                else None)))"

text \<open>
  The conversion of a node's action to the string used for routing. The serialisation
  \<open>dump\<close> of the JSON library is a parameter.
\<close>

definition action_string :: "(json \<Rightarrow> string) \<Rightarrow> json \<Rightarrow> string" where
  "action_string dmp action =
     (case action of
        JStr s \<Rightarrow> s
      | JNull \<Rightarrow> ''default''
      | other \<Rightarrow> dmp other)"

text \<open>
  The body of the \<open>while\<close> loop of \<open>Flow::_orch\<close> and \<open>AsyncFlow::_orch_async\<close> for the
  current node \<open>c\<close>: combine the flow's own \<open>params_\<close> with the \<open>params\<close> argument, store
  them in the node, run the node, resolve the successor. The asynchronous orchestrator
  differs in one place: it runs an \<open>AsyncNode\<close> through \<open>run_async\<close>.
\<close>

definition combine_params :: "json \<Rightarrow> json \<Rightarrow> exn + json" where
  "combine_params flow_ps ps =
     (if \<not> is_null ps \<and> is_object ps then json_update flow_ps ps else Inr flow_ps)"

definition activate :: "bool \<Rightarrow> nat \<Rightarrow> 'u world \<Rightarrow> (exn + json) \<times> 'u world" where
  "activate async_flow c w =
     (let nd = heap w c;
          run = (if async_flow \<and> is_async nd then vrun_async nd else vrun nd)
      in case run (params nd) (members nd) (ctx w) of
           (out, u', shared') \<Rightarrow>
             (out, w\<lparr>heap := (heap w)(c := nd\<lparr>members := u'\<rparr>),
                     ctx := shared',
                     activations := activations w @ [(c, params nd)]\<rparr>))"

definition install_params :: "nat \<Rightarrow> json \<Rightarrow> 'u world \<Rightarrow> 'u world" where
  "install_params c combined_params w =
     (if \<not> is_null combined_params \<and> is_object combined_params
      then w\<lparr>heap := (heap w)(c := set_params (heap w c) combined_params)\<rparr>
      else w)"

definition orch_body ::
  "bool \<Rightarrow> (json \<Rightarrow> string) \<Rightarrow> json \<Rightarrow> json \<Rightarrow> nat \<Rightarrow> 'u world \<Rightarrow>
     (exn + json \<times> node_ptr) \<times> 'u world" where
  "orch_body async_flow dmp flow_ps ps c w =
     (case combine_params flow_ps ps of
        Inl e \<Rightarrow> (Inl e, w)
      | Inr combined_params \<Rightarrow>
          (case activate async_flow c (install_params c combined_params w) of
             (Inl e, w2) \<Rightarrow> (Inl e, w2)
           | (Inr action, w2) \<Rightarrow>
               (Inr (action, get_next_node (heap w2) (Some c) (action_string dmp action)), w2)))"

text \<open>
  The loop may run forever on a cyclic graph; \<open>fuel\<close> bounds the number of activations,
  and \<open>None\<close> is the answer of a loop that needs more.
\<close>

fun orch_loop ::
  "nat \<Rightarrow> bool \<Rightarrow> (json \<Rightarrow> string) \<Rightarrow> json \<Rightarrow> json \<Rightarrow> node_ptr \<Rightarrow> json \<Rightarrow> 'u world \<Rightarrow>
     ((exn + json) \<times> 'u world) option" where
  "orch_loop fuel async_flow dmp flow_ps ps None last_action w = Some (Inr last_action, w)"
| "orch_loop 0 async_flow dmp flow_ps ps (Some c) last_action w = None"
| "orch_loop (Suc fuel) async_flow dmp flow_ps ps (Some c) last_action w =
     (case orch_body async_flow dmp flow_ps ps c w of
        (Inl e, w') \<Rightarrow> Some (Inl e, w')
      | (Inr (action, next_node), w') \<Rightarrow>
          orch_loop fuel async_flow dmp flow_ps ps next_node action w')"

text \<open>
  A flow object: its own \<open>params_\<close>, its start node, and its \<open>prep\<close> and \<open>post\<close> (for an
  asynchronous flow: \<open>prep_async\<close> and \<open>post_async\<close>).
\<close>

record flow =
  flow_params :: json
  start_node :: node_ptr
  flow_prep :: "json \<Rightarrow> exn + json"
  flow_post :: "json \<Rightarrow> json \<Rightarrow> json \<Rightarrow> (exn + json) \<times> json"

definition orch ::
  "nat \<Rightarrow> bool \<Rightarrow> (json \<Rightarrow> string) \<Rightarrow> flow \<Rightarrow> json \<Rightarrow> 'u world \<Rightarrow> ((exn + json) \<times> 'u world) option" where
  "orch fuel async_flow dmp fl ps w =
     (case start_node fl of
        None \<Rightarrow> Some (Inr JNull, w)
      | Some s \<Rightarrow> orch_loop fuel async_flow dmp (flow_params fl) ps (Some s) JNull w)"

definition Flow__orch ::
  "nat \<Rightarrow> (json \<Rightarrow> string) \<Rightarrow> flow \<Rightarrow> json \<Rightarrow> 'u world \<Rightarrow> ((exn + json) \<times> 'u world) option" where
  "Flow__orch fuel dmp fl ps w = orch fuel False dmp fl ps w"

definition AsyncFlow__orch_async ::
  "nat \<Rightarrow> (json \<Rightarrow> string) \<Rightarrow> flow \<Rightarrow> json \<Rightarrow> 'u world \<Rightarrow> ((exn + json) \<times> 'u world) option" where
  "AsyncFlow__orch_async fuel dmp fl ps w = orch fuel True dmp fl ps w"

text \<open>The defaults: \<open>Flow::post\<close> passes the result on, \<open>BaseNode::prep\<close> returns null.\<close>

definition Flow_post :: "json \<Rightarrow> json \<Rightarrow> json \<Rightarrow> (exn + json) \<times> json" where
  "Flow_post sh prep_res exec_res = (Inr exec_res, sh)"

definition BaseNode_prep :: "json \<Rightarrow> exn + json" where
  "BaseNode_prep sh = Inr JNull"

definition finish_with_post ::
  "flow \<Rightarrow> json \<Rightarrow> json \<Rightarrow> 'u world \<Rightarrow> ((exn + json) \<times> 'u world) option" where
  "finish_with_post fl prep_res exec_res w =
     (case flow_post fl (ctx w) prep_res exec_res of
        (out, sh') \<Rightarrow> Some (out, w\<lparr>ctx := sh'\<rparr>))"

text \<open>\<open>Flow::_run\<close> and \<open>AsyncFlow::_run_async\<close>: \<open>prep\<close>, the orchestration, \<open>post\<close>.\<close>

definition flow_run ::
  "nat \<Rightarrow> bool \<Rightarrow> (json \<Rightarrow> string) \<Rightarrow> flow \<Rightarrow> 'u world \<Rightarrow> ((exn + json) \<times> 'u world) option" where
  "flow_run fuel async_flow dmp fl w =
     (case flow_prep fl (ctx w) of
        Inl e \<Rightarrow> Some (Inl e, w)
      | Inr prep_res \<Rightarrow>
          (case orch fuel async_flow dmp fl prep_res w of
             None \<Rightarrow> None
           | Some (Inl e, w') \<Rightarrow> Some (Inl e, w')
           | Some (Inr exec_res, w') \<Rightarrow> finish_with_post fl prep_res exec_res w'))"

definition Flow__run ::
  "nat \<Rightarrow> (json \<Rightarrow> string) \<Rightarrow> flow \<Rightarrow> 'u world \<Rightarrow> ((exn + json) \<times> 'u world) option" where
  "Flow__run fuel dmp fl w = flow_run fuel False dmp fl w"

definition AsyncFlow__run_async ::
  "nat \<Rightarrow> (json \<Rightarrow> string) \<Rightarrow> flow \<Rightarrow> 'u world \<Rightarrow> ((exn + json) \<times> 'u world) option" where
  "AsyncFlow__run_async fuel dmp fl w = flow_run fuel True dmp fl w"

subsection \<open>Batch flows\<close>

text \<open>
  \<open>BatchFlow::_run\<close> and \<open>AsyncBatchFlow::_run_async\<close>: one orchestration per element
  of the array \<open>prep\<close> returns, then \<open>post\<close>. The two differ in the value they pass to
  \<open>post\<close> as the result: \<open>json::object()\<close> in the first, \<open>json{}\<close> in the second.
\<close>

definition batch_combined_params :: "json \<Rightarrow> json \<Rightarrow> exn + json" where
  "batch_combined_params flow_ps batch_params =
     (if is_object batch_params
      then json_update (if is_null flow_ps then JObj [] else flow_ps) batch_params
      else Inr flow_ps)"

fun batch_flow_loop ::
  "nat \<Rightarrow> bool \<Rightarrow> (json \<Rightarrow> string) \<Rightarrow> flow \<Rightarrow> json list \<Rightarrow> 'u world \<Rightarrow>
     ((exn + unit) \<times> 'u world) option" where
  "batch_flow_loop fuel async_flow dmp fl [] w = Some (Inr (), w)"
| "batch_flow_loop fuel async_flow dmp fl (batch_params # rest) w =
     (case batch_combined_params (flow_params fl) batch_params of
        Inl e \<Rightarrow> Some (Inl e, w)
      | Inr combined_params \<Rightarrow>
          (case orch fuel async_flow dmp fl combined_params w of
             None \<Rightarrow> None
           | Some (Inl e, w') \<Rightarrow> Some (Inl e, w')
           | Some (Inr _, w') \<Rightarrow> batch_flow_loop fuel async_flow dmp fl rest w'))"

definition batch_flow_run ::
  "nat \<Rightarrow> bool \<Rightarrow> json \<Rightarrow> (json \<Rightarrow> string) \<Rightarrow> flow \<Rightarrow> 'u world \<Rightarrow>
     ((exn + json) \<times> 'u world) option" where
  "batch_flow_run fuel async_flow empty_res dmp fl w =
     (case flow_prep fl (ctx w) of
        Inl e \<Rightarrow> Some (Inl e, w)
      | Inr prep_res \<Rightarrow>
          (case (case prep_res of
                   JArr sets \<Rightarrow> batch_flow_loop fuel async_flow dmp fl sets w
                 | _ \<Rightarrow> Some (Inr (), w)) of
             None \<Rightarrow> None
           | Some (Inl e, w') \<Rightarrow> Some (Inl e, w')
           | Some (Inr _, w') \<Rightarrow> finish_with_post fl prep_res empty_res w'))"

definition BatchFlow__run ::
  "nat \<Rightarrow> (json \<Rightarrow> string) \<Rightarrow> flow \<Rightarrow> 'u world \<Rightarrow> ((exn + json) \<times> 'u world) option" where
  "BatchFlow__run fuel dmp fl w = batch_flow_run fuel False (JObj []) dmp fl w"

definition AsyncBatchFlow__run_async ::
  "nat \<Rightarrow> (json \<Rightarrow> string) \<Rightarrow> flow \<Rightarrow> 'u world \<Rightarrow> ((exn + json) \<times> 'u world) option" where
  "AsyncBatchFlow__run_async fuel dmp fl w = batch_flow_run fuel True JNull dmp fl w"

text \<open>
  A lifecycle node as a node of the graph: its methods may read the parameter bag.
\<close>

definition lifecycle_vrun ::
  "node_kind \<Rightarrow> (json \<Rightarrow> 'u node_methods) \<Rightarrow> json \<Rightarrow> 'u node \<Rightarrow> json \<Rightarrow>
     (exn + json) \<times> 'u node \<times> json" where
  "lifecycle_vrun k m ps n sh =
     (case virtual__run k (m ps) n sh of (out, n', sh', tr) \<Rightarrow> (out, n', sh'))"

section \<open>Vocabulary of the properties\<close>

text \<open>
  \<open>exec_seq f p u i\<close> is the outcome of attempt \<open>i + 1\<close> when \<open>exec\<close> is called again and
  again on the prepared input \<open>p\<close>, starting with members \<open>u\<close>.
\<close>

fun exec_seq ::
  "('u \<Rightarrow> json \<Rightarrow> (exn + json) \<times> 'u) \<Rightarrow> json \<Rightarrow> 'u \<Rightarrow> nat \<Rightarrow> (exn + json) \<times> 'u" where
  "exec_seq f p u 0 = f u p"
| "exec_seq f p u (Suc i) = exec_seq f p (snd (f u p)) i"

text \<open>
  A failure the handler of the retry loop catches, and the subclass members after \<open>k\<close>
  calls of \<open>exec\<close>.
\<close>

fun std_failure :: "exn + json \<Rightarrow> bool" where
  "std_failure (Inl e) = is_std e"
| "std_failure (Inr r) = False"

fun exec_state :: "('u \<Rightarrow> json \<Rightarrow> (exn + json) \<times> 'u) \<Rightarrow> json \<Rightarrow> 'u \<Rightarrow> nat \<Rightarrow> 'u" where
  "exec_state f p u 0 = u"
| "exec_state f p u (Suc k) = exec_state f p (snd (f u p)) k"

text \<open>
  The events of \<open>k\<close> failed attempts that are each followed by another attempt, the
  counter being \<open>c\<close> before the first of them, with the delays as numbers.
\<close>

fun failed_attempts :: "int \<Rightarrow> json \<Rightarrow> int \<Rightarrow> nat \<Rightarrow> event list" where
  "failed_attempts w p c 0 = []"
| "failed_attempts w p c (Suc k) =
     ExecCall p # (if w > 0 then [SleepMs (w * 2 ^ nat c)] else [])
     @ failed_attempts w p (c + 1) k"

definition exec_calls :: "event list \<Rightarrow> nat" where
  "exec_calls tr = length (filter is_ExecCall tr)"

definition fallback_calls :: "event list \<Rightarrow> nat" where
  "fallback_calls tr = length (filter is_FallbackCall tr)"

text \<open>
  The delay the specification gives for the sleep after failed attempt \<open>a\<close> (counted
  from 1), and the events it gives for \<open>k\<close> failed attempts that are each followed by
  another attempt: the call of \<open>exec\<close>, then the sleep when the base delay is positive.
\<close>

definition spec_backoff :: "int \<Rightarrow> nat \<Rightarrow> int" where
  "spec_backoff base_delay a = base_delay * 2 ^ (a - 1)"

definition spec_failed_attempts :: "int \<Rightarrow> json \<Rightarrow> nat \<Rightarrow> event list" where
  "spec_failed_attempts base_delay p k =
     concat (map (\<lambda>a. ExecCall p # (if base_delay > 0 then [SleepMs (spec_backoff base_delay a)] else []))
               [1..<Suc k])"

text \<open>
  For a batch: the node state after a prefix of the items, and the run of element \<open>j\<close>
  in the state the elements before it have left. \<open>gen_batch_loop\<close> is the common shape
  of the two sequential batch loops.
\<close>

fun gen_batch_loop ::
  "('n \<Rightarrow> json \<Rightarrow> (exn + json) \<times> 'n \<times> event list) \<Rightarrow> 'n \<Rightarrow> json list \<Rightarrow> json list \<Rightarrow>
     (exn + json list) \<times> 'n \<times> event list" where
  "gen_batch_loop ex n [] results = (Inr results, n, [])"
| "gen_batch_loop ex n (item # items) results =
     (case ex n item of
        (Inl e, n', tr) \<Rightarrow> (Inl e, n', tr)
      | (Inr item_result, n', tr) \<Rightarrow>
          (case gen_batch_loop ex n' items (results @ [item_result]) of
             (out, n'', tr') \<Rightarrow> (out, n'', tr @ tr')))"

definition state_after ::
  "('n \<Rightarrow> json \<Rightarrow> (exn + json) \<times> 'n \<times> event list) \<Rightarrow> 'n \<Rightarrow> json list \<Rightarrow> 'n" where
  "state_after ex n xs = foldl (\<lambda>nd x. fst (snd (ex nd x))) n xs"

definition element_run ::
  "('n \<Rightarrow> json \<Rightarrow> (exn + json) \<times> 'n \<times> event list) \<Rightarrow> 'n \<Rightarrow> json list \<Rightarrow> nat \<Rightarrow>
     (exn + json) \<times> 'n \<times> event list" where
  "element_run ex n items j = ex (state_after ex n (take j items)) (items ! j)"

text \<open>
  Methods that are pure functions of the element: \<open>exec_async\<close> computes \<open>f\<close> and the
  fallback computes \<open>g\<close>, and neither reads or writes the members. For such methods,
  the outcome of the retry loop as a function of the element, the outcome a task stands for, and the
  array (or the first exception) a list of outcomes gives.
\<close>

definition pure_methods ::
  "'u async_methods \<Rightarrow> (json \<Rightarrow> exn + json) \<Rightarrow> (json \<Rightarrow> exn \<Rightarrow> exn + json) \<Rightarrow> bool" where
  "pure_methods am f g \<longleftrightarrow>
     exec_async am = (\<lambda>u p. (f p, u)) \<and> exec_fallback_async am = (\<lambda>u p e. (g p e, u))"

function pure_result ::
  "(json \<Rightarrow> exn + json) \<Rightarrow> (json \<Rightarrow> exn \<Rightarrow> exn + json) \<Rightarrow> int \<Rightarrow> int \<Rightarrow> json \<Rightarrow> int \<Rightarrow>
     exn + json" where
  "pure_result f g max_r wait_ms item cur =
     (if cur < max_r then
        (case f item of
           Inr r \<Rightarrow> Inr r
         | Inl e \<Rightarrow>
             (if \<not> is_std e then Inl e
              else if cur + 1 \<ge> max_r then g item e
              else if wait_ms > 0 \<and> backoff_time wait_ms (cur + 1) = None then Inl Undefined
              else pure_result f g max_r wait_ms item (cur + 1)))
      else Inl (Exn ''std::runtime_error'' ''Unexpected state in async retry logic''))"
  by pat_completeness auto
termination
  by (relation "measure (\<lambda>(f, g, max_r, wait_ms, item, cur). nat (max_r - cur))") auto

declare pure_result.simps [simp del]

definition task_value ::
  "(json \<Rightarrow> exn + json) \<Rightarrow> (json \<Rightarrow> exn \<Rightarrow> exn + json) \<Rightarrow> int \<Rightarrow> int \<Rightarrow> task \<Rightarrow> exn + json" where
  "task_value f g max_r wait_ms t =
     (case t of Done x \<Rightarrow> x | Running item cur \<Rightarrow> pure_result f g max_r wait_ms item cur)"

fun gather :: "(exn + json) list \<Rightarrow> json list \<Rightarrow> exn + json list" where
  "gather [] acc = Inr acc"
| "gather (Inl e # outs) acc = Inl e"
| "gather (Inr r # outs) acc = gather outs (acc @ [r])"

text \<open>
  The asynchronous methods read as synchronous ones: the two retry loops are the same
  loop over them.
\<close>

definition as_sync :: "'u async_methods \<Rightarrow> 'u node_methods" where
  "as_sync am = \<lparr>prep = prep_async am, exec = exec_async am,
                 exec_fallback = exec_fallback_async am, post = post_async am\<rparr>"

section \<open>Example nodes\<close>

text \<open>
  A node in the style of the repository's tests: the subclass counts its attempts, fails
  on the first two and then returns 7.
\<close>

definition flaky_exec :: "nat \<Rightarrow> json \<Rightarrow> (exn + json) \<times> nat" where
  "flaky_exec u p =
     (if u < 2 then (Inl (Exn ''std::runtime_error'' ''transient''), Suc u)
      else (Inr (JInt 7), Suc u))"

definition flaky :: "nat node_methods" where
  "flaky = \<lparr>prep = (\<lambda>u shared. (Inr shared, u)),
            exec = flaky_exec,
            exec_fallback = Node_exec_fallback,
            post = (\<lambda>u shared p r. (Inr (JStr ''done''), u, shared))\<rparr>"

definition node3 :: "nat node" where
  "node3 = Node_ctor 3 0 0"

text \<open>
  Node objects with two attempts, with a base delay of \<open>2^30\<close> ms and with a base delay
  of 100 ms, and a node whose \<open>exec\<close> always throws and that keeps the default fallback.
\<close>

definition node2 :: "unit node" where
  "node2 = Node_ctor 2 0 ()"

definition big_wait_node :: "unit node" where
  "big_wait_node = Node_ctor 3 1073741824 ()"

definition waiting_node :: "nat node" where
  "waiting_node = Node_ctor 3 100 0"

definition always_fail :: "unit node_methods" where
  "always_fail = \<lparr>prep = (\<lambda>u shared. (Inr shared, u)),
            exec = (\<lambda>u p. (Inl (Exn ''std::runtime_error'' ''boom''), u)),
            exec_fallback = Node_exec_fallback,
            post = (\<lambda>u shared p r. (Inr (JStr ''done''), u, shared))\<rparr>"

text \<open>
  The same two nodes as classes derived from \<open>AsyncNode\<close> that keep its default
  fallback (which calls \<open>exec_fallback\<close>), and their objects as the constructors
  \<open>: AsyncNode(3, 0)\<close> and \<open>: AsyncNode(3, 50)\<close> leave them. A node whose \<open>exec\<close> throws an
  \<open>int\<close> on the first call and would return on the second.
\<close>

definition flaky_async :: "nat async_methods" where
  "flaky_async = \<lparr>prep_async = (\<lambda>u shared. (Inr shared, u)),
                  exec_async = flaky_exec,
                  exec_fallback_async = Node_exec_fallback,
                  post_async = (\<lambda>u shared p r. (Inr (JStr ''done''), u, shared))\<rparr>"

definition always_fail_async :: "unit async_methods" where
  "always_fail_async = \<lparr>prep_async = (\<lambda>u shared. (Inr shared, u)),
            exec_async = (\<lambda>u p. (Inl (Exn ''std::runtime_error'' ''boom''), u)),
            exec_fallback_async = Node_exec_fallback,
            post_async = (\<lambda>u shared p r. (Inr (JStr ''done''), u, shared))\<rparr>"

definition async_node3 :: "nat node" where
  "async_node3 = derived_ctor 3 0 0"

definition async_waiting_node :: "unit node" where
  "async_waiting_node = derived_ctor 3 50 ()"

definition throws_int_exec :: "nat \<Rightarrow> json \<Rightarrow> (exn + json) \<times> nat" where
  "throws_int_exec u p =
     (if u < 1 then (Inl (NonStd ''int 42''), Suc u) else (Inr (JInt 7), Suc u))"

definition throws_int :: "nat node_methods" where
  "throws_int = \<lparr>prep = (\<lambda>u shared. (Inr shared, u)),
                 exec = throws_int_exec,
                 exec_fallback = (\<lambda>u p e. (Inr (JStr ''fallback''), u)),
                 post = (\<lambda>u shared p r. (Inr (JStr ''done''), u, shared))\<rparr>"

text \<open>
  A graph for the routing examples: node 0 returns the action \<open>z\<close> and has a successor
  for \<open>x\<close> only; it carries the parameters \<open>{a: 1}\<close>. The example nodes return strings
  or null, so the serialisation is never consulted.
\<close>

definition no_dump :: "json \<Rightarrow> string" where
  "no_dump j = []"

definition decision_node :: "unit graph_node" where
  "decision_node =
     \<lparr>params = JObj [(''a'', JInt 1)],
      successors = [''x'' \<mapsto> Some 1],
      is_async = False,
      vrun = (\<lambda>ps u sh. (Inr (JStr ''z''), u, sh)),
      vrun_async = (\<lambda>ps u sh. (Inr (JStr ''z''), u, sh)),
      members = ()\<rparr>"

definition end_node :: "unit graph_node" where
  "end_node =
     \<lparr>params = JNull,
      successors = Map.empty,
      is_async = False,
      vrun = (\<lambda>ps u sh. (Inr JNull, u, sh)),
      vrun_async = (\<lambda>ps u sh. (Inr JNull, u, sh)),
      members = ()\<rparr>"

definition world0 :: "unit world" where
  "world0 = \<lparr>heap = (\<lambda>i. end_node)(0 := decision_node), ctx = JObj [], activations = []\<rparr>"

text \<open>
  A graph in which the three outcomes of the resolution follow one another. Node 0
  returns \<open>go\<close> and has successors for \<open>go\<close> (node 1) and \<open>default\<close> (node 3); node 1
  returns \<open>unknown\<close> and has a successor for \<open>default\<close> only (node 2); node 2 returns \<open>z\<close>
  and has a successor for \<open>x\<close> only.
\<close>

definition router :: "string \<Rightarrow> (string \<Rightarrow> node_ptr option) \<Rightarrow> unit graph_node" where
  "router act succ =
     \<lparr>params = JNull,
      successors = succ,
      is_async = False,
      vrun = (\<lambda>ps u sh. (Inr (JStr act), u, sh)),
      vrun_async = (\<lambda>ps u sh. (Inr (JStr act), u, sh)),
      members = ()\<rparr>"

definition route_world :: "unit world" where
  "route_world =
     \<lparr>heap = (\<lambda>i. end_node)
        (0 := router ''go'' [''go'' \<mapsto> Some 1, ''default'' \<mapsto> Some 3],
         1 := router ''unknown'' [''default'' \<mapsto> Some 2],
         2 := router ''z'' [''x'' \<mapsto> Some 3]),
      ctx = JNull, activations = []\<rparr>"

definition plain_flow :: flow where
  "plain_flow = \<lparr>flow_params = JNull, start_node = Some 0,
                  flow_prep = BaseNode_prep, flow_post = Flow_post\<rparr>"

text \<open>
  Nodes whose \<open>prep\<close> and whose \<open>post\<close> throws, and a graph whose nodes all have the
  throwing \<open>prep\<close> and a default successor.
\<close>

definition bad_prep :: "unit node_methods" where
  "bad_prep = \<lparr>prep = (\<lambda>u sh. (Inl (Exn ''std::invalid_argument'' ''no input''), u)),
               exec = (\<lambda>u p. (Inr p, u)),
               exec_fallback = (\<lambda>u p e. (Inr (JStr ''fallback''), u)),
               post = (\<lambda>u sh p r. (Inr JNull, u, sh))\<rparr>"

definition bad_prep_node :: "(unit node) graph_node" where
  "bad_prep_node =
     \<lparr>params = JNull,
      successors = [''default'' \<mapsto> Some 1],
      is_async = False,
      vrun = lifecycle_vrun KNode (\<lambda>ps. bad_prep),
      vrun_async = lifecycle_vrun KNode (\<lambda>ps. bad_prep),
      members = \<lparr>max_retries = 3, wait = 0, cur_retry = 0, self = ()\<rparr>\<rparr>"

definition bad_post :: "unit node_methods" where
  "bad_post = \<lparr>prep = (\<lambda>u sh. (Inr sh, u)),
               exec = (\<lambda>u p. (Inr p, u)),
               exec_fallback = (\<lambda>u p e. (Inr (JStr ''fallback''), u)),
               post = (\<lambda>u sh p r. (Inl (Exn ''std::logic_error'' ''bad result''), u, sh))\<rparr>"

definition node1 :: "unit node" where
  "node1 = \<lparr>max_retries = 3, wait = 0, cur_retry = 0, self = ()\<rparr>"

definition world1 :: "(unit node) world" where
  "world1 = \<lparr>heap = (\<lambda>i. bad_prep_node), ctx = JObj [], activations = []\<rparr>"

text \<open>
  A batch node whose \<open>exec\<close> depends on the position of the element (it counts the
  elements it has seen), and an asynchronous node whose \<open>exec_async\<close> doubles a number
  and fails on anything else, with a fallback that returns a marker.
\<close>

definition indexed_exec :: "nat \<Rightarrow> json \<Rightarrow> (exn + json) \<times> nat" where
  "indexed_exec u p =
     (case p of
        JInt x \<Rightarrow> (Inr (JInt (x * 10 + int u)), Suc u)
      | _ \<Rightarrow> (Inl (Exn ''std::invalid_argument'' ''not a number''), u))"

definition indexed :: "nat node_methods" where
  "indexed = \<lparr>prep = (\<lambda>u sh. (Inr sh, u)),
              exec = indexed_exec,
              exec_fallback = Node_exec_fallback,
              post = (\<lambda>u sh p r. (Inr JNull, u, sh))\<rparr>"

definition batch_node :: "nat node" where
  "batch_node = \<lparr>max_retries = 2, wait = 0, cur_retry = 0, self = 0\<rparr>"

definition double_exec :: "json \<Rightarrow> exn + json" where
  "double_exec p =
     (case p of
        JInt x \<Rightarrow> Inr (JInt (2 * x))
      | _ \<Rightarrow> Inl (Exn ''std::invalid_argument'' ''not a number''))"

definition skip_fallback :: "json \<Rightarrow> exn \<Rightarrow> exn + json" where
  "skip_fallback p e = Inr (JStr ''skipped'')"

definition doubling :: "unit async_methods" where
  "doubling = \<lparr>prep_async = (\<lambda>u sh. (Inr sh, u)),
               exec_async = (\<lambda>u p. (double_exec p, u)),
               exec_fallback_async = (\<lambda>u p e. (skip_fallback p e, u)),
               post_async = (\<lambda>u sh p r. (Inr JNull, u, sh))\<rparr>"

section \<open>Retry controller\<close>

lemma exec_calls_append [simp]: "exec_calls (xs @ ys) = exec_calls xs + exec_calls ys"
  by (simp add: exec_calls_def)

lemma fallback_calls_append [simp]:
  "fallback_calls (xs @ ys) = fallback_calls xs + fallback_calls ys"
  by (simp add: fallback_calls_def)

lemma exec_calls_Cons [simp]:
  "exec_calls (x # xs) = (if is_ExecCall x then 1 else 0) + exec_calls xs"
  by (simp add: exec_calls_def)

lemma fallback_calls_Cons [simp]:
  "fallback_calls (x # xs) = (if is_FallbackCall x then 1 else 0) + fallback_calls xs"
  by (simp add: fallback_calls_def)

lemma exec_calls_Nil [simp]: "exec_calls [] = 0"
  by (simp add: exec_calls_def)

lemma fallback_calls_Nil [simp]: "fallback_calls [] = 0"
  by (simp add: fallback_calls_def)

lemma exec_calls_failed_attempts [simp]: "exec_calls (failed_attempts w p c k) = k"
  by (induction k arbitrary: c) simp_all

lemma fallback_calls_failed_attempts [simp]: "fallback_calls (failed_attempts w p c k) = 0"
  by (induction k arbitrary: c) simp_all

lemma exec_seq_exec_state: "exec_seq f p u k = f (exec_state f p u k) p"
  by (induction k arbitrary: u) simp_all

lemma first_attempt_fails:
  assumes "\<forall>i<Suc k. std_failure (fst (exec_seq f p u i))"
  obtains e u' where "f u p = (Inl e, u')" and "is_std e"
proof -
  from assms have "std_failure (fst (exec_seq f p u 0))" by blast
  then show ?thesis using that by (cases "f u p"; cases "fst (f u p)") auto
qed

subsection \<open>Delays in range\<close>

lemma pow2_less_of_mult:
  assumes "0 < (w::int)" and "w * 2 ^ j < 2 ^ 31"
  shows "j < 31"
proof -
  have "(2::int) ^ j \<le> w * 2 ^ j" using assms(1) by simp
  with assms(2) have lt: "(2::int) ^ j < 2 ^ 31" by linarith
  show ?thesis
  proof (rule ccontr)
    assume "\<not> j < 31"
    then have "(2::int) ^ 31 \<le> 2 ^ j" by (intro power_increasing) auto
    with lt show False by linarith
  qed
qed

lemma mult_pow2_mono:
  assumes "0 < (w::int)" and "i \<le> j" and "w * 2 ^ j < 2 ^ 31"
  shows "w * 2 ^ i < 2 ^ 31"
proof -
  have "(2::int) ^ i \<le> 2 ^ j" using assms(2) by (simp add: power_increasing)
  then have "w * 2 ^ i \<le> w * 2 ^ j" using assms(1) by (simp add: mult_left_mono)
  with assms(3) show ?thesis by linarith
qed

lemma backoff_time_in_range:
  assumes "0 < w" and "w * 2 ^ j < 2 ^ 31"
  shows "backoff_time w (int j + 1) = Some (w * 2 ^ j)"
proof -
  have j: "j < 31" by (rule pow2_less_of_mult [OF assms])
  have "0 \<le> w * 2 ^ j" using assms(1) by simp
  moreover have "- (2 ^ 31) \<le> (0::int)" by simp
  ultimately have lo: "- (2 ^ 31) \<le> w * 2 ^ j" by (rule order_trans [rotated])
  show ?thesis using j lo assms(2) by (simp add: backoff_time_def)
qed

lemma backoff_time_Some:
  assumes "backoff_time w c = Some d"
  shows "d = w * 2 ^ nat (c - 1)"
  using assms by (simp add: backoff_time_def split: if_splits)

subsection \<open>The loop after \<open>k\<close> failed attempts\<close>

text \<open>
  While the attempts fail with exceptions the handler catches, another attempt is left
  and the delays are in range, the loop produces the events of the failed attempts and
  goes on from the state they leave.
\<close>

lemma retry_loop_prefix:
  assumes "c + int k < N"
    and "\<forall>i<k. std_failure (fst (exec_seq (exec m) p u i))"
    and "0 < w \<longrightarrow> 0 < k \<longrightarrow> w * 2 ^ (j + k - 1) < 2 ^ 31"
    and "c = int j"
  shows "retry_loop m N w p c u =
           (case retry_loop m N w p (c + int k) (exec_state (exec m) p u k) of
              (out, c', u', tr) \<Rightarrow> (out, c', u', failed_attempts w p c k @ tr))"
  using assms
proof (induction k arbitrary: c j u)
  case 0
  then show ?case by (simp split: prod.splits)
next
  case (Suc k)
  obtain e u' where ex: "exec m u p = (Inl e, u')" and std: "is_std e"
    using first_attempt_fails [OF Suc.prems(2)] by blast
  have lt: "c < N" "\<not> N \<le> c + 1" using Suc.prems(1) by auto
  have a: "(c + 1) + int k < N" using Suc.prems(1) by simp
  have b: "\<forall>i<k. std_failure (fst (exec_seq (exec m) p u' i))"
  proof (intro allI impI)
    fix i assume "i < k"
    then have "std_failure (fst (exec_seq (exec m) p u (Suc i)))" using Suc.prems(2) by auto
    then show "std_failure (fst (exec_seq (exec m) p u' i))" using ex by simp
  qed
  have r: "0 < w \<longrightarrow> 0 < k \<longrightarrow> w * 2 ^ (Suc j + k - 1) < 2 ^ 31"
    using Suc.prems(3) by simp
  have cj: "c + 1 = int (Suc j)" using Suc.prems(4) by simp
  note ih = Suc.IH [OF a b r cj]
  have st: "exec_state (exec m) p u (Suc k) = exec_state (exec m) p u' k" using ex by simp
  have ck: "c + int (Suc k) = c + 1 + int k" by simp
  obtain out c' u'' tr where
    rest: "retry_loop m N w p (c + 1 + int k) (exec_state (exec m) p u' k) = (out, c', u'', tr)"
    by (cases "retry_loop m N w p (c + 1 + int k) (exec_state (exec m) p u' k)")
  have nxt: "retry_loop m N w p (c + 1) u' = (out, c', u'', failed_attempts w p (c + 1) k @ tr)"
    using ih rest by simp
  show ?case
  proof (cases "0 < w")
    case True
    have "w * 2 ^ (j + Suc k - 1) < 2 ^ 31" using Suc.prems(3) True by simp
    then have "w * 2 ^ j < 2 ^ 31" using mult_pow2_mono [OF True, of j "j + Suc k - 1"] by simp
    from backoff_time_in_range [OF True this]
    have bo: "backoff_time w (c + 1) = Some (w * 2 ^ nat c)" using Suc.prems(4) by simp
    show ?thesis
      unfolding st ck
      by (subst retry_loop.simps) (simp add: ex std lt True bo nxt rest)
  next
    case False
    show ?thesis
      unfolding st ck
      by (subst retry_loop.simps) (simp add: ex std lt False nxt rest)
  qed
qed

lemma retry_loop_success:
  assumes "int k < N"
    and "\<forall>i<k. std_failure (fst (exec_seq (exec m) p u i))"
    and "exec_seq (exec m) p u k = (Inr r, uf)"
    and "0 < w \<longrightarrow> 0 < k \<longrightarrow> w * 2 ^ (k - 1) < 2 ^ 31"
  shows "retry_loop m N w p 0 u = (Inr r, 0, uf, failed_attempts w p 0 k @ [ExecCall p])"
proof -
  have ex: "exec m (exec_state (exec m) p u k) p = (Inr r, uf)"
    using assms(3) by (simp add: exec_seq_exec_state)
  have last: "retry_loop m N w p (int k) (exec_state (exec m) p u k) = (Inr r, 0, uf, [ExecCall p])"
    using assms(1) by (subst retry_loop.simps) (simp add: ex)
  have "0 + int k < N" using assms(1) by simp
  from retry_loop_prefix [OF this assms(2), of w 0] assms(4) last
  show ?thesis by simp
qed

lemma retry_loop_exhausted:
  assumes "int (Suc k) = N"
    and "\<forall>i<k. std_failure (fst (exec_seq (exec m) p u i))"
    and "exec_seq (exec m) p u k = (Inl e, uf)" and "is_std e"
    and "0 < w \<longrightarrow> 0 < k \<longrightarrow> w * 2 ^ (k - 1) < 2 ^ 31"
  shows "retry_loop m N w p 0 u =
           (fst (exec_fallback m uf p e), N, snd (exec_fallback m uf p e),
            failed_attempts w p 0 k @ [ExecCall p, FallbackCall p e])"
proof -
  have ex: "exec m (exec_state (exec m) p u k) p = (Inl e, uf)"
    using assms(3) by (simp add: exec_seq_exec_state)
  have kN: "int k < N" "N \<le> int k + 1" using assms(1) by auto
  have last: "retry_loop m N w p (int k) (exec_state (exec m) p u k) =
                (fst (exec_fallback m uf p e), N, snd (exec_fallback m uf p e),
                 [ExecCall p, FallbackCall p e])"
    using kN assms(1,4)
    by (subst retry_loop.simps) (auto simp: ex split: prod.splits)
  have "0 + int k < N" using kN by simp
  from retry_loop_prefix [OF this assms(2), of w 0] assms(5) last
  show ?thesis by simp
qed

lemma Node__exec_success:
  assumes "int k < max_retries n"
    and "\<forall>i<k. std_failure (fst (exec_seq (exec m) p (self n) i))"
    and "exec_seq (exec m) p (self n) k = (Inr r, uf)"
    and "0 < wait n \<longrightarrow> 0 < k \<longrightarrow> wait n * 2 ^ (k - 1) < 2 ^ 31"
  shows "Node__exec m n p =
           (Inr r, n\<lparr>cur_retry := 0, self := uf\<rparr>, failed_attempts (wait n) p 0 k @ [ExecCall p])"
  using retry_loop_success [OF assms] by (simp add: Node__exec_def)

lemma Node__exec_exhausted:
  assumes "max_retries n = int (Suc k)"
    and "\<forall>i<k. std_failure (fst (exec_seq (exec m) p (self n) i))"
    and "exec_seq (exec m) p (self n) k = (Inl e, uf)" and "is_std e"
    and "0 < wait n \<longrightarrow> 0 < k \<longrightarrow> wait n * 2 ^ (k - 1) < 2 ^ 31"
  shows "Node__exec m n p =
           (fst (exec_fallback m uf p e),
            n\<lparr>cur_retry := max_retries n, self := snd (exec_fallback m uf p e)\<rparr>,
            failed_attempts (wait n) p 0 k @ [ExecCall p, FallbackCall p e])"
  using retry_loop_exhausted [OF assms(1) [symmetric] assms(2-5)] assms(1)
  by (simp add: Node__exec_def)

subsection \<open>Runs of a node with retries\<close>

text \<open>
  On an object whose member \<open>max_retries_\<close> is \<open>N\<close>, with failures the handler catches and
  delays in range: an \<open>exec\<close> that fails \<open>k < N\<close> times and then returns \<open>r\<close> is called
  \<open>k + 1\<close> times, the fallback is not called, and \<open>run\<close> returns what \<open>post\<close> returns on
  \<open>r\<close>.
\<close>

lemma Node_run_success:
  assumes "int k < max_retries n"
    and "prep m (self n) shared = (Inr p, u1)"
    and "\<forall>i<k. std_failure (fst (exec_seq (exec m) p u1 i))"
    and "exec_seq (exec m) p u1 k = (Inr r, uf)"
    and "0 < wait n \<longrightarrow> 0 < k \<longrightarrow> wait n * 2 ^ (k - 1) < 2 ^ 31"
  shows "\<exists>n' tr.
           BaseNode_run KNode m n shared =
             (fst (post m uf shared p r), n', snd (snd (post m uf shared p r)), tr)
         \<and> tr = PrepCall shared # failed_attempts (wait n) p 0 k
                  @ [ExecCall p, PostCall shared p r]
         \<and> exec_calls tr = k + 1
         \<and> fallback_calls tr = 0"
proof -
  let ?n1 = "n\<lparr>self := u1\<rparr>"
  have ex: "Node__exec m ?n1 p =
      (Inr r, ?n1\<lparr>cur_retry := 0, self := uf\<rparr>, failed_attempts (wait n) p 0 k @ [ExecCall p])"
    using Node__exec_success [of k ?n1 m p r uf] assms(1,3,4,5) by simp
  obtain out u3 sh where po: "post m uf shared p r = (out, u3, sh)"
    by (cases "post m uf shared p r") auto
  have "BaseNode_run KNode m n shared =
          (out, ?n1\<lparr>cur_retry := 0, self := u3\<rparr>, sh,
           PrepCall shared # failed_attempts (wait n) p 0 k @ [ExecCall p, PostCall shared p r])"
    by (simp add: BaseNode_run_def BaseNode__run_def assms(2) ex po)
  then show ?thesis by (simp add: po)
qed

text \<open>
  When all \<open>N\<close> attempts fail, the fallback is called once, after the last of them, with
  the prepared input and the last error, and its outcome takes the place of the outcome
  of \<open>exec\<close>.
\<close>

lemma Node_run_exhausted:
  assumes "max_retries n = int (Suc k)"
    and "prep m (self n) shared = (Inr p, u1)"
    and "\<forall>i<k. std_failure (fst (exec_seq (exec m) p u1 i))"
    and "exec_seq (exec m) p u1 k = (Inl e, uf)" and "is_std e"
    and "0 < wait n \<longrightarrow> 0 < k \<longrightarrow> wait n * 2 ^ (k - 1) < 2 ^ 31"
  shows "\<exists>tr. tr = failed_attempts (wait n) p 0 k @ [ExecCall p, FallbackCall p e]
         \<and> exec_calls tr = Suc k
         \<and> fallback_calls tr = 1
         \<and> BaseNode_run KNode m n shared =
             (case exec_fallback m uf p e of
                (Inl e', u2) \<Rightarrow>
                  (Inl e', n\<lparr>cur_retry := max_retries n, self := u2\<rparr>, shared, PrepCall shared # tr)
              | (Inr r, u2) \<Rightarrow>
                  (case post m u2 shared p r of
                     (out, u3, shared') \<Rightarrow>
                       (out, n\<lparr>cur_retry := max_retries n, self := u3\<rparr>, shared',
                        PrepCall shared # tr @ [PostCall shared p r])))"
proof -
  let ?n1 = "n\<lparr>self := u1\<rparr>"
  let ?tr = "failed_attempts (wait n) p 0 k @ [ExecCall p, FallbackCall p e]"
  have ex: "Node__exec m ?n1 p =
      (fst (exec_fallback m uf p e),
       ?n1\<lparr>cur_retry := max_retries n, self := snd (exec_fallback m uf p e)\<rparr>, ?tr)"
    using Node__exec_exhausted [of ?n1 k m p e uf] assms(1,3,4,5,6) by simp
  have run: "BaseNode_run KNode m n shared =
             (case exec_fallback m uf p e of
                (Inl e', u2) \<Rightarrow>
                  (Inl e', n\<lparr>cur_retry := max_retries n, self := u2\<rparr>, shared, PrepCall shared # ?tr)
              | (Inr r, u2) \<Rightarrow>
                  (case post m u2 shared p r of
                     (out, u3, shared') \<Rightarrow>
                       (out, n\<lparr>cur_retry := max_retries n, self := u3\<rparr>, shared',
                        PrepCall shared # ?tr @ [PostCall shared p r])))"
    by (simp add: BaseNode_run_def BaseNode__run_def assms(2) ex split: prod.splits sum.splits)
  have "exec_calls ?tr = Suc k" "fallback_calls ?tr = 1" by simp_all
  with run show ?thesis by blast
qed

text \<open>
  An exception that is not of a class derived from \<open>std::exception\<close> is not caught: the
  attempt that throws it is the last one, the fallback is not called, and the exception
  leaves \<open>run\<close>.
\<close>

lemma non_std_failure_not_retried:
  assumes "cur < max_r" and "exec m u p = (Inl e, u')" and "\<not> is_std e"
  shows "retry_loop m max_r w p cur u = (Inl e, cur, u', [ExecCall p])"
  using assms by (subst retry_loop.simps) simp

lemma throws_int_run:
  "BaseNode_run KNode throws_int node3 JNull =
     (Inl (NonStd ''int 42''), node3\<lparr>self := 1\<rparr>, JNull, [PrepCall JNull, ExecCall JNull])"
  by (simp add: BaseNode_run_def BaseNode__run_def Node__exec_def throws_int_def
      throws_int_exec_def node3_def Node_ctor_def non_std_failure_not_retried)

subsection \<open>Objects of classes derived from \<open>AsyncNode\<close>\<close>

text \<open>
  C1. The class of \<open>flaky_async\<close> is derived from \<open>AsyncNode\<close>, its constructor is
  \<open>: AsyncNode(3, 0)\<close>, and its \<open>exec_async\<close> throws a \<open>std::runtime_error\<close> on the first
  two calls and returns 7 on the third. With three attempts \<open>run_async\<close> would return the
  action of \<open>post_async\<close> after three calls of \<open>exec_async\<close>, without the fallback. The
  object has \<open>max_retries_ = 1\<close>: after the first failed call the fallback is called, and
  its exception leaves \<open>run_async\<close>. The same class derived from \<open>Node\<close>, constructed
  with \<open>: Node(3, 0)\<close>, returns the action of \<open>post\<close> after three calls of \<open>exec\<close>.
\<close>

theorem async_node_loses_max_retries:
  "max_retries async_node3 = 1
   \<and> AsyncNode__run_async AsyncNode__exec_async flaky_async async_node3 JNull =
       (Inl (Exn ''std::exception'' ''std::exception''), async_node3\<lparr>self := 1\<rparr>, JNull,
        [PrepCall JNull, ExecCall JNull,
         FallbackCall JNull (Exn ''std::runtime_error'' ''transient'')])
   \<and> max_retries node3 = 3
   \<and> BaseNode_run KNode flaky node3 JNull =
       (Inr (JStr ''done''), node3\<lparr>self := 3\<rparr>, JNull,
        [PrepCall JNull, ExecCall JNull, ExecCall JNull, ExecCall JNull,
         PostCall JNull JNull (JInt 7)])"
proof (intro conjI)
  show "max_retries async_node3 = 1"
    by (simp add: async_node3_def derived_ctor_def Node_ctor_def)
  show "AsyncNode__run_async AsyncNode__exec_async flaky_async async_node3 JNull =
       (Inl (Exn ''std::exception'' ''std::exception''), async_node3\<lparr>self := 1\<rparr>, JNull,
        [PrepCall JNull, ExecCall JNull,
         FallbackCall JNull (Exn ''std::runtime_error'' ''transient'')])"
    by (simp add: AsyncNode__run_async_def AsyncNode__exec_async_def async_retry_loop.simps
        flaky_async_def flaky_exec_def async_node3_def derived_ctor_def Node_ctor_def
        Node_exec_fallback_def slice_exn_def)
  show "max_retries node3 = 3" by (simp add: node3_def Node_ctor_def)
  show "BaseNode_run KNode flaky node3 JNull =
       (Inr (JStr ''done''), node3\<lparr>self := 3\<rparr>, JNull,
        [PrepCall JNull, ExecCall JNull, ExecCall JNull, ExecCall JNull,
         PostCall JNull JNull (JInt 7)])"
    by (simp add: BaseNode_run_def BaseNode__run_def Node__exec_def retry_loop.simps
        flaky_def flaky_exec_def node3_def Node_ctor_def)
qed

subsection \<open>The default fallback\<close>

text \<open>
  C2. A node constructed with \<open>: Node(2, 0)\<close> whose \<open>exec\<close> always throws
  \<open>std::runtime_error("boom")\<close> and that keeps the default \<open>exec_fallback\<close>: \<open>exec\<close> is
  called twice, then the fallback once, with the prepared input and the error of the
  second call. What leaves \<open>run\<close> is not that error: it is an object of class
  \<open>std::exception\<close>, and the message \<open>boom\<close> is lost.
\<close>

theorem default_fallback_slices_error:
  "BaseNode_run KNode always_fail node2 JNull =
     (Inl (Exn ''std::exception'' ''std::exception''), node2\<lparr>cur_retry := 2\<rparr>, JNull,
      [PrepCall JNull, ExecCall JNull, ExecCall JNull,
       FallbackCall JNull (Exn ''std::runtime_error'' ''boom'')])
   \<and> fst (exec always_fail () JNull) = Inl (Exn ''std::runtime_error'' ''boom'')
   \<and> fst (BaseNode_run KNode always_fail node2 JNull) \<noteq> fst (exec always_fail () JNull)"
  by (simp add: BaseNode_run_def BaseNode__run_def Node__exec_def retry_loop.simps
      always_fail_def node2_def Node_ctor_def Node_exec_fallback_def slice_exn_def)

subsection \<open>Delays\<close>

lemma failed_attempts_shift:
  "failed_attempts w p (int j) k =
     concat (map (\<lambda>a. ExecCall p # (if w > 0 then [SleepMs (spec_backoff w a)] else []))
               [Suc j..<Suc (j + k)])"
proof (induction k arbitrary: j)
  case 0
  then show ?case by simp
next
  case (Suc k)
  have "int j + 1 = int (Suc j)" by simp
  then have "failed_attempts w p (int j + 1) k = failed_attempts w p (int (Suc j)) k"
    by (rule arg_cong)
  then have t: "failed_attempts w p (int j + 1) k =
     concat (map (\<lambda>a. ExecCall p # (if w > 0 then [SleepMs (spec_backoff w a)] else []))
               [Suc (Suc j)..<Suc (Suc j + k)])"
    using Suc.IH [of "Suc j"] by simp
  have u: "[Suc j..<Suc (j + Suc k)] = Suc j # [Suc (Suc j)..<Suc (Suc j + k)]"
    by (simp add: upt_rec)
  show ?case unfolding u by (simp add: t spec_backoff_def)
qed

lemma failed_attempts_spec: "failed_attempts w p 0 k = spec_failed_attempts w p k"
  using failed_attempts_shift [of w p 0 k] by (simp add: spec_failed_attempts_def)

text \<open>
  After each of the first \<open>k\<close> failed attempts that is followed by another attempt, the
  loop sleeps for the delay of the specification when the base delay is positive, and
  does not sleep otherwise, as long as the delays up to that attempt are in the range of
  \<open>int\<close>: the events of \<open>_exec\<close> begin with those the specification gives for \<open>k\<close> failed
  attempts, whatever happens afterwards.
\<close>

lemma Node__exec_sleeps:
  assumes "int k < max_retries n"
    and "\<forall>i<k. std_failure (fst (exec_seq (exec m) p (self n) i))"
    and "0 < wait n \<longrightarrow> 0 < k \<longrightarrow> wait n * 2 ^ (k - 1) < 2 ^ 31"
  shows "\<exists>rest. snd (snd (Node__exec m n p)) = spec_failed_attempts (wait n) p k @ rest"
proof -
  have "0 + int k < max_retries n" using assms(1) by simp
  from retry_loop_prefix [OF this assms(2), of "wait n" 0] assms(3)
  show ?thesis
    by (auto simp: Node__exec_def failed_attempts_spec split: prod.splits)
qed

text \<open>
  With a base delay of 100 ms and an \<open>exec\<close> that fails twice, the loop sleeps 100 ms
  and then 200 ms.
\<close>

lemma waiting_node_sleeps:
  "snd (snd (Node__exec flaky waiting_node JNull)) =
     [ExecCall JNull, SleepMs 100, ExecCall JNull, SleepMs 200, ExecCall JNull]"
  by (simp add: Node__exec_def retry_loop.simps flaky_def flaky_exec_def waiting_node_def
      Node_ctor_def backoff_time_def)

text \<open>After the last failed attempt the fallback is called at once.\<close>

lemma Node__exec_no_sleep_before_fallback:
  assumes "max_retries n = int (Suc k)"
    and "\<forall>i<k. std_failure (fst (exec_seq (exec m) p (self n) i))"
    and "exec_seq (exec m) p (self n) k = (Inl e, uf)" and "is_std e"
    and "0 < wait n \<longrightarrow> 0 < k \<longrightarrow> wait n * 2 ^ (k - 1) < 2 ^ 31"
  shows "snd (snd (Node__exec m n p)) =
           spec_failed_attempts (wait n) p k @ [ExecCall p, FallbackCall p e]"
  using Node__exec_exhausted [OF assms] by (simp add: failed_attempts_spec)

text \<open>
  C9. A node constructed with \<open>: Node(3, 1073741824)\<close> whose \<open>exec\<close> always throws a
  \<open>std::runtime_error\<close>. After the first failed attempt the loop sleeps \<open>2^30\<close> ms, as
  specified. After the second, the specified delay is \<open>2^31\<close> ms; the product
  \<open>wait_ * (1 << (cur_retry_ - 1))\<close> is computed in \<open>int\<close> and overflows, so no delay is
  determined and the third attempt is not reached in the model. In an object of a class
  derived from \<open>AsyncNode\<close> and constructed with \<open>: AsyncNode(3, 50)\<close> the base delay is
  0 and there is one attempt: the fallback follows the first failure, and there is no
  sleep of 50 ms.
\<close>

theorem backoff_product_overflows:
  "spec_backoff (wait big_wait_node) 1 = 1073741824
   \<and> spec_backoff (wait big_wait_node) 2 = 2147483648
   \<and> backoff_time (wait big_wait_node) 1 = Some 1073741824
   \<and> backoff_time (wait big_wait_node) 2 = None
   \<and> Node__exec always_fail big_wait_node JNull =
       (Inl Undefined, big_wait_node\<lparr>cur_retry := 2\<rparr>,
        [ExecCall JNull, SleepMs 1073741824, ExecCall JNull])
   \<and> wait async_waiting_node = 0
   \<and> AsyncNode__exec_async always_fail_async async_waiting_node JNull =
       (Inl (Exn ''std::exception'' ''std::exception''), async_waiting_node,
        [ExecCall JNull, FallbackCall JNull (Exn ''std::runtime_error'' ''boom'')])"
proof (intro conjI)
  show "spec_backoff (wait big_wait_node) 1 = 1073741824"
    and "spec_backoff (wait big_wait_node) 2 = 2147483648"
    by (simp_all add: spec_backoff_def big_wait_node_def Node_ctor_def)
  show b1: "backoff_time (wait big_wait_node) 1 = Some 1073741824"
    and b2: "backoff_time (wait big_wait_node) 2 = None"
    by (simp_all add: backoff_time_def big_wait_node_def Node_ctor_def)
  show "Node__exec always_fail big_wait_node JNull =
       (Inl Undefined, big_wait_node\<lparr>cur_retry := 2\<rparr>,
        [ExecCall JNull, SleepMs 1073741824, ExecCall JNull])"
    by (simp add: Node__exec_def retry_loop.simps always_fail_def big_wait_node_def
        Node_ctor_def backoff_time_def)
  show "wait async_waiting_node = 0"
    by (simp add: async_waiting_node_def derived_ctor_def Node_ctor_def)
  show "AsyncNode__exec_async always_fail_async async_waiting_node JNull =
       (Inl (Exn ''std::exception'' ''std::exception''), async_waiting_node,
        [ExecCall JNull, FallbackCall JNull (Exn ''std::runtime_error'' ''boom'')])"
    by (simp add: AsyncNode__exec_async_def async_retry_loop.simps always_fail_async_def
        async_waiting_node_def derived_ctor_def Node_ctor_def Node_exec_fallback_def slice_exn_def)
qed

section \<open>Flow orchestration\<close>




lemma activate_activations:
  "activate a c w = (out, w') \<Longrightarrow> activations w' = activations w @ [(c, params (heap w c))]"
  by (auto simp: activate_def Let_def split: prod.splits)

text \<open>One step in the example graph: the node returns its label and nothing else changes.\<close>

lemma route_step:
  assumes hw: "heap w = heap route_world" and cw: "ctx w = JNull"
    and nd: "heap route_world c = router act succ"
    and nx: "nxt = (if (case succ act of Some t \<Rightarrow> t | None \<Rightarrow> None) \<noteq> None
                    then (case succ act of Some t \<Rightarrow> t | None \<Rightarrow> None)
                    else if act \<noteq> ''default'' then (case succ ''default'' of Some t \<Rightarrow> t | None \<Rightarrow> None) else None)"
  shows "install_params c JNull w = w"
    and "(if False \<and> is_async (heap w c) then vrun_async (heap w c) else vrun (heap w c))
           (params (heap w c)) (members (heap w c)) (ctx w) = (Inr (JStr act), (), JNull)"
    and "w\<lparr>heap := (heap w)(c := (heap w c)\<lparr>members := ()\<rparr>), ctx := JNull,
           activations := activations w @ [(c, params (heap w c))]\<rparr>
         = w\<lparr>activations := activations w @ [(c, JNull)]\<rparr>"
proof -
  show "install_params c JNull w = w" by (simp add: install_params_def)
  show "(if False \<and> is_async (heap w c) then vrun_async (heap w c) else vrun (heap w c))
           (params (heap w c)) (members (heap w c)) (ctx w) = (Inr (JStr act), (), JNull)"
    by (simp add: hw nd router_def cw)
  have m: "(heap w c)\<lparr>members := ()\<rparr> = heap w c" by simp
  have "(heap w)(c := (heap w c)\<lparr>members := ()\<rparr>) = heap w"
    by (simp only: m fun_upd_triv)
  moreover have "params (heap w c) = JNull" by (simp add: hw nd router_def)
  ultimately show "w\<lparr>heap := (heap w)(c := (heap w c)\<lparr>members := ()\<rparr>), ctx := JNull,
           activations := activations w @ [(c, params (heap w c))]\<rparr>
         = w\<lparr>activations := activations w @ [(c, JNull)]\<rparr>"
    using cw by (simp add: world.equality)
qed

text \<open>
  C3. Node \<open>c\<close> is run with the merged parameters and returns \<open>action\<close>; \<open>s\<close> is the action
  as a string. The next node is what the successor map of \<open>c\<close> holds for \<open>s\<close>; if it
  holds no node for \<open>s\<close> and \<open>s\<close> is not \<open>default\<close>, what it holds for \<open>default\<close>; if
  both lookups fail it is null, and then the loop returns right after \<open>c\<close>, with the
  action of \<open>c\<close>, whatever number of steps it was allowed. In every case the loop goes on
  from the resolved node, and the successor map of \<open>c\<close> is the one consulted.
\<close>

theorem successor_resolution:
  assumes "combine_params fps ps = Inr cp"
    and "nd = heap (install_params c cp w) c"
    and "(if a \<and> is_async nd then vrun_async nd else vrun nd) (params nd) (members nd) (ctx w)
           = (Inr action, u', shared')"
    and "s = (case action of JStr x \<Rightarrow> x | JNull \<Rightarrow> ''default'' | other \<Rightarrow> dmp other)"
    and "direct = (case successors nd s of Some target \<Rightarrow> target | None \<Rightarrow> None)"
    and "fallback = (case successors nd ''default'' of Some target \<Rightarrow> target | None \<Rightarrow> None)"
    and "nxt = (if direct \<noteq> None then direct else if s \<noteq> ''default'' then fallback else None)"
    and "w' = (install_params c cp w)
                \<lparr>heap := (heap (install_params c cp w))(c := nd\<lparr>members := u'\<rparr>),
                 ctx := shared',
                 activations := activations w @ [(c, params nd)]\<rparr>"
  shows "orch_body a dmp fps ps c w = (Inr (action, nxt), w')
       \<and> successors (heap w' c) = successors nd
       \<and> successors nd = successors (heap w c)
       \<and> orch_loop (Suc fuel) a dmp fps ps (Some c) last_action w
            = orch_loop fuel a dmp fps ps nxt action w'
       \<and> (direct = None \<and> (s = ''default'' \<or> fallback = None)
            \<longrightarrow> nxt = None
              \<and> orch_loop (Suc fuel) a dmp fps ps (Some c) last_action w = Some (Inr action, w'))"
proof -
  let ?wi = "install_params c cp w"
  have cx: "ctx ?wi = ctx w" and ac: "activations ?wi = activations w"
    by (simp_all add: install_params_def)
  have sc: "successors nd = successors (heap w c)"
    using assms(2) by (simp add: install_params_def set_params_def)
  have act: "activate a c ?wi = (Inr action, w')"
    using assms(3) assms(2) [symmetric] assms(8)
    by (simp add: activate_def Let_def cx ac split: if_splits)
  have hw: "heap w' c = nd\<lparr>members := u'\<rparr>" using assms(8) by simp
  have gn: "get_next_node (heap w') (Some c) s = nxt"
    using assms(5,6,7) hw
    by (auto simp: get_next_node_def get_successor_def split: option.splits)
  have body: "orch_body a dmp fps ps c w = (Inr (action, nxt), w')"
    using assms(1) act gn assms(4) by (simp add: orch_body_def action_string_def)
  have step: "orch_loop (Suc fuel) a dmp fps ps (Some c) last_action w
            = orch_loop fuel a dmp fps ps nxt action w'"
    using body by simp
  have stop: "nxt = None \<Longrightarrow>
      orch_loop (Suc fuel) a dmp fps ps (Some c) last_action w = Some (Inr action, w')"
    using step by simp
  have none: "direct = None \<and> (s = ''default'' \<or> fallback = None) \<Longrightarrow> nxt = None"
    using assms(7) by auto
  show ?thesis using body hw sc step stop none by simp
qed

theorem successor_resolution_witness:
  "combine_params JNull JNull = Inr JNull
   \<and> vrun (heap route_world 0) JNull () JNull = (Inr (JStr ''go''), (), JNull)
   \<and> successors (heap route_world 0) ''go'' = Some (Some 1)
   \<and> vrun (heap route_world 1) JNull () JNull = (Inr (JStr ''unknown''), (), JNull)
   \<and> successors (heap route_world 1) ''unknown'' = None
   \<and> successors (heap route_world 1) ''default'' = Some (Some 2)
   \<and> vrun (heap route_world 2) JNull () JNull = (Inr (JStr ''z''), (), JNull)
   \<and> successors (heap route_world 2) ''z'' = None
   \<and> successors (heap route_world 2) ''default'' = None
   \<and> fst (orch_body False no_dump JNull JNull 0 route_world) = Inr (JStr ''go'', Some 1)
   \<and> fst (orch_body False no_dump JNull JNull 1 route_world) = Inr (JStr ''unknown'', Some 2)
   \<and> fst (orch_body False no_dump JNull JNull 2 route_world) = Inr (JStr ''z'', None)
   \<and> map_option fst (orch_loop 3 False no_dump JNull JNull (Some 0) JNull route_world)
       = Some (Inr (JStr ''z''))
   \<and> map_option (map fst \<circ> activations \<circ> snd)
        (orch_loop 3 False no_dump JNull JNull (Some 0) JNull route_world)
       = Some [0, 1, 2]
   \<and> map_option (map fst \<circ> activations \<circ> snd)
        (orch_loop 7 False no_dump JNull JNull (Some 0) JNull route_world)
       = Some [0, 1, 2]"
proof -
  have cp: "combine_params JNull JNull = Inr JNull" by (simp add: combine_params_def)
  have h0: "heap route_world 0 = router ''go'' [''go'' \<mapsto> Some 1, ''default'' \<mapsto> Some 3]"
    and h1: "heap route_world 1 = router ''unknown'' [''default'' \<mapsto> Some 2]"
    and h2: "heap route_world 2 = router ''z'' [''x'' \<mapsto> Some 3]"
    by (simp_all add: route_world_def)
  have r0: "vrun (heap route_world 0) JNull () JNull = (Inr (JStr ''go''), (), JNull)"
    and s0: "successors (heap route_world 0) ''go'' = Some (Some 1)"
    and r1: "vrun (heap route_world 1) JNull () JNull = (Inr (JStr ''unknown''), (), JNull)"
    and s1: "successors (heap route_world 1) ''unknown'' = None"
    and d1: "successors (heap route_world 1) ''default'' = Some (Some 2)"
    and r2: "vrun (heap route_world 2) JNull () JNull = (Inr (JStr ''z''), (), JNull)"
    and s2: "successors (heap route_world 2) ''z'' = None"
    and d2: "successors (heap route_world 2) ''default'' = None"
    by (simp_all add: route_world_def router_def)
  define w1 where "w1 = route_world\<lparr>activations := activations route_world @ [(0, JNull)]\<rparr>"
  define w2 where "w2 = w1\<lparr>activations := activations w1 @ [(1, JNull)]\<rparr>"
  define w3 where "w3 = w2\<lparr>activations := activations w2 @ [(2, JNull)]\<rparr>"
  have c0: "ctx route_world = JNull" by (simp add: route_world_def)
  have hw1: "heap w1 = heap route_world" and cw1: "ctx w1 = JNull" by (simp_all add: w1_def c0)
  have hw2: "heap w2 = heap route_world" and cw2: "ctx w2 = JNull" by (simp_all add: w2_def hw1 cw1)
  note a0 = route_step [OF refl c0 h0 refl]
  note a1 = route_step [OF hw1 cw1 h1 refl]
  note a2 = route_step [OF hw2 cw2 h2 refl]
  have n0: "heap (install_params 0 JNull route_world) 0 = heap route_world 0" by (simp only: a0(1))
  have n1: "heap (install_params 1 JNull w1) 1 = heap w1 1" by (simp only: a1(1))
  have n2: "heap (install_params 2 JNull w2) 2 = heap w2 2" by (simp only: a2(1))
  have x0: "w1 = (install_params 0 JNull route_world)
                \<lparr>heap := (heap (install_params 0 JNull route_world))(0 := (heap route_world 0)\<lparr>members := ()\<rparr>),
                 ctx := JNull,
                 activations := activations route_world @ [(0, params (heap route_world 0))]\<rparr>"
    unfolding w1_def a0(1) by (rule a0(3) [symmetric])
  have x1: "w2 = (install_params 1 JNull w1)
                \<lparr>heap := (heap (install_params 1 JNull w1))(1 := (heap w1 1)\<lparr>members := ()\<rparr>),
                 ctx := JNull,
                 activations := activations w1 @ [(1, params (heap w1 1))]\<rparr>"
    unfolding w2_def a1(1) by (rule a1(3) [symmetric])
  have x2: "w3 = (install_params 2 JNull w2)
                \<lparr>heap := (heap (install_params 2 JNull w2))(2 := (heap w2 2)\<lparr>members := ()\<rparr>),
                 ctx := JNull,
                 activations := activations w2 @ [(2, params (heap w2 2))]\<rparr>"
    unfolding w3_def a2(1) by (rule a2(3) [symmetric])
  have g0: "''go'' = (case JStr ''go'' of JStr x \<Rightarrow> x | JNull \<Rightarrow> ''default'' | other \<Rightarrow> no_dump other)"
    and g1: "''unknown'' = (case JStr ''unknown'' of JStr x \<Rightarrow> x | JNull \<Rightarrow> ''default'' | other \<Rightarrow> no_dump other)"
    and g2: "''z'' = (case JStr ''z'' of JStr x \<Rightarrow> x | JNull \<Rightarrow> ''default'' | other \<Rightarrow> no_dump other)"
    by simp_all
  have k0: "Some 1 = (case successors (heap route_world 0) ''go'' of Some target \<Rightarrow> target | None \<Rightarrow> None)"
    and f0: "Some 3 = (case successors (heap route_world 0) ''default'' of Some target \<Rightarrow> target | None \<Rightarrow> None)"
    by (simp_all add: h0 router_def)
  have k1: "None = (case successors (heap w1 1) ''unknown'' of Some target \<Rightarrow> target | None \<Rightarrow> None)"
    and f1: "Some 2 = (case successors (heap w1 1) ''default'' of Some target \<Rightarrow> target | None \<Rightarrow> None)"
    by (simp_all only: hw1 s1 d1 option.case)
  have k2: "None = (case successors (heap w2 2) ''z'' of Some target \<Rightarrow> target | None \<Rightarrow> None)"
    and f2: "None = (case successors (heap w2 2) ''default'' of Some target \<Rightarrow> target | None \<Rightarrow> None)"
    by (simp_all only: hw2 s2 d2 option.case)
  have m0: "Some 1 = (if Some 1 \<noteq> (None :: node_ptr) then Some 1
                      else if ''go'' \<noteq> ''default'' then Some 3 else None)"
    and m1: "Some 2 = (if None \<noteq> (None :: node_ptr) then None
                      else if ''unknown'' \<noteq> ''default'' then Some 2 else None)"
    and m2: "None = (if None \<noteq> (None :: node_ptr) then None
                      else if ''z'' \<noteq> ''default'' then None else None)"
    by simp_all
  note i0 = successor_resolution [OF cp n0 [symmetric] a0(2) g0 k0 f0 m0 x0]
  note i1 = successor_resolution [OF cp n1 [symmetric] a1(2) g1 k1 f1 m1 x1]
  note i2 = successor_resolution [OF cp n2 [symmetric] a2(2) g2 k2 f2 m2 x2]
  have t0: "orch_body False no_dump JNull JNull 0 route_world = (Inr (JStr ''go'', Some 1), w1)
      \<and> orch_loop (Suc fuel) False no_dump JNull JNull (Some 0) JNull route_world
            = orch_loop fuel False no_dump JNull JNull (Some 1) (JStr ''go'') w1" for fuel
    using i0 [of fuel JNull] by blast
  have t1: "orch_body False no_dump JNull JNull 1 w1 = (Inr (JStr ''unknown'', Some 2), w2)
      \<and> orch_loop (Suc fuel) False no_dump JNull JNull (Some 1) (JStr ''go'') w1
            = orch_loop fuel False no_dump JNull JNull (Some 2) (JStr ''unknown'') w2" for fuel
    using i1 [of fuel "JStr ''go''"] by blast
  have t2: "orch_body False no_dump JNull JNull 2 w2 = (Inr (JStr ''z'', None), w3)
      \<and> orch_loop (Suc fuel) False no_dump JNull JNull (Some 2) (JStr ''unknown'') w2
            = Some (Inr (JStr ''z''), w3)" for fuel
    using i2 [of fuel "JStr ''unknown''"] by blast
  have b1: "fst (orch_body False no_dump JNull JNull 1 route_world) = Inr (JStr ''unknown'', Some 2)"
    and b2: "fst (orch_body False no_dump JNull JNull 2 route_world) = Inr (JStr ''z'', None)"
    by (simp_all add: orch_body_def cp install_params_def activate_def Let_def route_world_def router_def
        get_next_node_def get_successor_def action_string_def)
  have run: "orch_loop (Suc (Suc (Suc fuel))) False no_dump JNull JNull (Some 0) JNull route_world
               = Some (Inr (JStr ''z''), w3)" for fuel
    by (simp only: t0 [THEN conjunct2] t1 [THEN conjunct2] t2 [THEN conjunct2])
  have a3: "map fst (activations w3) = [0, 1, 2]"
    by (simp add: w3_def w2_def w1_def route_world_def)
  have f3: "(3::nat) = Suc (Suc (Suc 0))" and f7: "(7::nat) = Suc (Suc (Suc 4))" by simp_all
  have l3: "orch_loop 3 False no_dump JNull JNull (Some 0) JNull route_world
               = Some (Inr (JStr ''z''), w3)"
    unfolding f3 by (rule run)
  have l7: "orch_loop 7 False no_dump JNull JNull (Some 0) JNull route_world
               = Some (Inr (JStr ''z''), w3)"
    unfolding f7 by (rule run)
  have b0: "fst (orch_body False no_dump JNull JNull 0 route_world) = Inr (JStr ''go'', Some 1)"
    using t0 [of 0] by simp
  show ?thesis
    using cp r0 s0 r1 s1 d1 r2 s2 d2 b0 b1 b2 by (simp add: l3 l7 a3)
qed






section \<open>Capability mismatch\<close>

text \<open>
  C7. \<open>run\<close> on a node of an asynchronous class throws the capability error at once:
  no lifecycle method is called, the node and the shared state are unchanged, and this
  holds for every retry configuration.
\<close>

theorem sync_run_on_async_node_fails_fast:
  assumes "is_async_kind k"
  shows "BaseNode_run k m n sh =
           (Inl (Exn ''std::runtime_error''
                   ''AsyncNode requires async execution - use run_async() instead of run()''),
            n, sh, [])"
  using assms by (cases k) (simp_all add: BaseNode_run_def AsyncNode__run_def)

theorem sync_run_on_async_node_fails_fast_witness:
  "is_async_kind KAsyncNode
   \<and> BaseNode_run KAsyncNode flaky node3 JNull =
       (Inl (Exn ''std::runtime_error''
               ''AsyncNode requires async execution - use run_async() instead of run()''),
        node3, JNull, [])"
proof -
  have h: "is_async_kind KAsyncNode" by simp
  from sync_run_on_async_node_fails_fast [OF h, of flaky node3 JNull] h
  show ?thesis by simp
qed

section \<open>Batch flows\<close>

lemma batch_flow_run_non_array:
  assumes "flow_prep fl (ctx w) = Inr prep_res" and "\<not> is_array prep_res"
  shows "batch_flow_run fuel a empty_res dmp fl w = finish_with_post fl prep_res empty_res w"
  using assms by (cases prep_res) (simp_all add: batch_flow_run_def)

text \<open>
  The synchronous batch flow on a \<open>prep\<close> result that is not an array: no orchestration
  pass, and \<open>post\<close> is called on the untouched state with the \<open>prep\<close> result and the
  empty object.
\<close>

lemma BatchFlow__run_non_array:
  assumes "flow_prep fl (ctx w) = Inr prep_res" and "\<not> is_array prep_res"
  shows "BatchFlow__run fuel dmp fl w = finish_with_post fl prep_res (JObj []) w"
  using batch_flow_run_non_array [OF assms] by (simp add: BatchFlow__run_def)

lemma AsyncBatchFlow__run_async_non_array:
  assumes "flow_prep fl (ctx w) = Inr prep_res" and "\<not> is_array prep_res"
  shows "AsyncBatchFlow__run_async fuel dmp fl w = finish_with_post fl prep_res JNull w"
  using batch_flow_run_non_array [OF assms] by (simp add: AsyncBatchFlow__run_async_def)

text \<open>
  C10. With the default \<open>prep\<close> (null, not an array) and the default \<open>post\<close>, neither
  batch flow activates a node. The synchronous one passes the empty object to \<open>post\<close>
  and returns it; the asynchronous one passes null.
\<close>

theorem async_batch_flow_passes_null:
  "map_option fst (BatchFlow__run 0 no_dump plain_flow world0) = Some (Inr (JObj []))
   \<and> map_option (activations \<circ> snd) (BatchFlow__run 0 no_dump plain_flow world0) = Some []
   \<and> map_option fst (AsyncBatchFlow__run_async 0 no_dump plain_flow world0) = Some (Inr JNull)
   \<and> map_option (activations \<circ> snd) (AsyncBatchFlow__run_async 0 no_dump plain_flow world0)
       = Some []"
  by (simp add: BatchFlow__run_def AsyncBatchFlow__run_async_def batch_flow_run_def
      plain_flow_def BaseNode_prep_def Flow_post_def finish_with_post_def world0_def)

section \<open>Errors outside the compute phase\<close>

lemma BaseNode__run_prep_error:
  assumes "prep m (self n) sh = (Inl e, u1)"
  shows "BaseNode__run vexec m n sh = (Inl e, n\<lparr>self := u1\<rparr>, sh, [PrepCall sh])"
  using assms by (simp add: BaseNode__run_def)

lemma BaseNode__run_post_error:
  assumes "prep m (self n) sh = (Inr p, u1)"
    and "vexec m (n\<lparr>self := u1\<rparr>) p = (Inr r, n2, tr)"
    and "post m (self n2) sh p r = (Inl e, u3, sh')"
  shows "BaseNode__run vexec m n sh =
           (Inl e, n2\<lparr>self := u3\<rparr>, sh', PrepCall sh # tr @ [PostCall sh p r])"
  using assms by (simp add: BaseNode__run_def)

lemma AsyncNode__run_async_prep_error:
  assumes "prep_async am (self n) sh = (Inl e, u1)"
  shows "AsyncNode__run_async vexec am n sh = (Inl e, n\<lparr>self := u1\<rparr>, sh, [PrepCall sh])"
  using assms by (simp add: AsyncNode__run_async_def)

lemma AsyncNode__run_async_post_error:
  assumes "prep_async am (self n) sh = (Inr p, u1)"
    and "vexec am (n\<lparr>self := u1\<rparr>) p = (Inr r, n2, tr)"
    and "post_async am (self n2) sh p r = (Inl e, u3, sh')"
  shows "AsyncNode__run_async vexec am n sh =
           (Inl e, n2\<lparr>self := u3\<rparr>, sh', PrepCall sh # tr @ [PostCall sh p r])"
  using assms by (simp add: AsyncNode__run_async_def)

lemma orch_loop_node_error:
  assumes "combine_params fps ps = Inr cp"
    and "activate a c (install_params c cp w) = (Inl e, w')"
  shows "orch_loop (Suc fuel) a dmp fps ps (Some c) last_action w = Some (Inl e, w')"
    and "activations w' = activations w @ [(c, params (heap (install_params c cp w) c))]"
proof -
  show "orch_loop (Suc fuel) a dmp fps ps (Some c) last_action w = Some (Inl e, w')"
    using assms by (simp add: orch_body_def)
  have "activations (install_params c cp w) = activations w"
    by (simp add: install_params_def)
  with activate_activations [OF assms(2)]
  show "activations w' = activations w @ [(c, params (heap (install_params c cp w) c))]"
    by simp
qed

text \<open>
  C8. An exception of \<open>prep\<close> ends the run of the node with that exception before
  \<open>exec\<close> or the fallback is called. An exception of \<open>post\<close> ends it with that exception,
  after the one call of \<open>post\<close> and with no event after it. The same holds for
  \<open>prep_async\<close> and \<open>post_async\<close>. In an orchestration, the exception of a node's run is
  the outcome of the loop, and the throwing node is the last one activated.
\<close>

theorem prep_post_errors_propagate:
  "(prep m (self n) sh = (Inl e, u1) \<longrightarrow>
      BaseNode__run vexec m n sh = (Inl e, n\<lparr>self := u1\<rparr>, sh, [PrepCall sh]))
   \<and> (prep m (self n) sh = (Inr p, u1) \<and> vexec m (n\<lparr>self := u1\<rparr>) p = (Inr r, n2, tr)
        \<and> post m (self n2) sh p r = (Inl e, u3, sh') \<longrightarrow>
      BaseNode__run vexec m n sh =
        (Inl e, n2\<lparr>self := u3\<rparr>, sh', PrepCall sh # tr @ [PostCall sh p r]))
   \<and> (prep_async am (self n) sh = (Inl e, u1) \<longrightarrow>
      AsyncNode__run_async avexec am n sh = (Inl e, n\<lparr>self := u1\<rparr>, sh, [PrepCall sh]))
   \<and> (prep_async am (self n) sh = (Inr p, u1) \<and> avexec am (n\<lparr>self := u1\<rparr>) p = (Inr r, n2, tr)
        \<and> post_async am (self n2) sh p r = (Inl e, u3, sh') \<longrightarrow>
      AsyncNode__run_async avexec am n sh =
        (Inl e, n2\<lparr>self := u3\<rparr>, sh', PrepCall sh # tr @ [PostCall sh p r]))
   \<and> (combine_params fps ps = Inr cp \<and> activate a c (install_params c cp w) = (Inl e, w') \<longrightarrow>
      orch_loop (Suc fuel) a dmp fps ps (Some c) last_action w = Some (Inl e, w')
      \<and> activations w' = activations w @ [(c, params (heap (install_params c cp w) c))])"
proof (intro conjI impI)
  assume "prep m (self n) sh = (Inl e, u1)"
  then show "BaseNode__run vexec m n sh = (Inl e, n\<lparr>self := u1\<rparr>, sh, [PrepCall sh])"
    by (rule BaseNode__run_prep_error)
next
  assume "prep m (self n) sh = (Inr p, u1) \<and> vexec m (n\<lparr>self := u1\<rparr>) p = (Inr r, n2, tr)
        \<and> post m (self n2) sh p r = (Inl e, u3, sh')"
  then show "BaseNode__run vexec m n sh =
        (Inl e, n2\<lparr>self := u3\<rparr>, sh', PrepCall sh # tr @ [PostCall sh p r])"
    by (simp add: BaseNode__run_post_error)
next
  assume "prep_async am (self n) sh = (Inl e, u1)"
  then show "AsyncNode__run_async avexec am n sh = (Inl e, n\<lparr>self := u1\<rparr>, sh, [PrepCall sh])"
    by (rule AsyncNode__run_async_prep_error)
next
  assume "prep_async am (self n) sh = (Inr p, u1) \<and> avexec am (n\<lparr>self := u1\<rparr>) p = (Inr r, n2, tr)
        \<and> post_async am (self n2) sh p r = (Inl e, u3, sh')"
  then show "AsyncNode__run_async avexec am n sh =
        (Inl e, n2\<lparr>self := u3\<rparr>, sh', PrepCall sh # tr @ [PostCall sh p r])"
    by (simp add: AsyncNode__run_async_post_error)
next
  assume a: "combine_params fps ps = Inr cp \<and> activate a c (install_params c cp w) = (Inl e, w')"
  then show "orch_loop (Suc fuel) a dmp fps ps (Some c) last_action w = Some (Inl e, w')"
    using orch_loop_node_error(1) by blast
  from a show "activations w' = activations w @ [(c, params (heap (install_params c cp w) c))]"
    using orch_loop_node_error(2) by blast
qed


theorem prep_post_errors_propagate_witness:
  "prep bad_prep (self node1) (JObj []) = (Inl (Exn ''std::invalid_argument'' ''no input''), ())
   \<and> BaseNode__run Node__exec bad_prep node1 (JObj []) =
        (Inl (Exn ''std::invalid_argument'' ''no input''), node1, JObj [], [PrepCall (JObj [])])
   \<and> BaseNode__run Node__exec bad_post node1 (JObj []) =
        (Inl (Exn ''std::logic_error'' ''bad result''), node1, JObj [],
         [PrepCall (JObj []), ExecCall (JObj []), PostCall (JObj []) (JObj []) (JObj [])])
   \<and> combine_params JNull JNull = Inr JNull
   \<and> fst (activate False 0 (install_params 0 JNull world1))
        = Inl (Exn ''std::invalid_argument'' ''no input'')
   \<and> map_option fst (Flow__orch 5 no_dump plain_flow JNull world1)
        = Some (Inl (Exn ''std::invalid_argument'' ''no input''))
   \<and> map_option (activations \<circ> snd) (Flow__orch 5 no_dump plain_flow JNull world1)
        = Some [(0, JNull)]"
proof -
  let ?e = "Exn ''std::invalid_argument'' ''no input''"
  have p: "prep bad_prep (self node1) (JObj []) = (Inl ?e, ())"
    by (simp add: bad_prep_def)
  have c: "combine_params JNull JNull = Inr JNull" by (simp add: combine_params_def)
  obtain w' where act: "activate False 0 (install_params 0 JNull world1) = (Inl ?e, w')"
    by (simp add: activate_def install_params_def world1_def bad_prep_node_def
        lifecycle_vrun_def BaseNode__run_def bad_prep_def Let_def)
  note t = prep_post_errors_propagate [where m = bad_prep and n = node1 and sh = "JObj []"
      and e = ?e and ?u1.0 = "()" and vexec = Node__exec and fps = JNull and ps = JNull
      and cp = JNull and a = False and c = 0 and w = world1 and w' = w' and fuel = 4
      and dmp = no_dump and last_action = JNull]
  have r1: "BaseNode__run Node__exec bad_prep node1 (JObj []) =
        (Inl ?e, node1, JObj [], [PrepCall (JObj [])])"
    using t p by (simp add: node1_def)
  have q1: "prep bad_post (self node1) (JObj []) = (Inr (JObj []), ())"
    by (simp add: bad_post_def)
  have q2: "Node__exec bad_post (node1\<lparr>self := ()\<rparr>) (JObj [])
              = (Inr (JObj []), node1, [ExecCall (JObj [])])"
    by (simp add: Node__exec_def retry_loop.simps bad_post_def node1_def)
  have q3: "post bad_post (self node1) (JObj []) (JObj []) (JObj [])
              = (Inl (Exn ''std::logic_error'' ''bad result''), (), JObj [])"
    by (simp add: bad_post_def)
  have r4: "BaseNode__run Node__exec bad_post node1 (JObj []) =
        (Inl (Exn ''std::logic_error'' ''bad result''), node1, JObj [],
         [PrepCall (JObj []), ExecCall (JObj []), PostCall (JObj []) (JObj []) (JObj [])])"
    using prep_post_errors_propagate [where m = bad_post and n = node1 and sh = "JObj []"
      and p = "JObj []" and ?u1.0 = "()" and vexec = Node__exec and r = "JObj []"
      and ?n2.0 = node1 and tr = "[ExecCall (JObj [])]"
      and e = "Exn ''std::logic_error'' ''bad result''" and ?u3.0 = "()" and sh' = "JObj []",
      THEN conjunct2, THEN conjunct1]
      q1 q2 q3
    by (simp add: node1_def)
  have r2: "orch_loop (Suc 4) False no_dump JNull JNull (Some 0) JNull world1 = Some (Inl ?e, w')"
    and r3: "activations w' = activations world1 @ [(0, params (heap (install_params 0 JNull world1) 0))]"
    using t c act by blast+
  have o: "Flow__orch 5 no_dump plain_flow JNull world1 = Some (Inl ?e, w')"
    using r2 by (simp add: Flow__orch_def orch_def plain_flow_def)
  have a: "activations w' = [(0, JNull)]"
    using r3 by (simp add: install_params_def world1_def bad_prep_node_def)
  show ?thesis using p r1 r4 c act o a by simp
qed

section \<open>Batch nodes\<close>

lemma batch_loop_gen: "batch_loop m n items acc = gen_batch_loop (Node__exec m) n items acc"
  by (induction items arbitrary: n acc) (auto split: prod.splits sum.splits)

lemma async_batch_loop_gen:
  "async_batch_loop am n items acc = gen_batch_loop (AsyncNode__exec_async am) n items acc"
  by (induction items arbitrary: n acc) (auto split: prod.splits sum.splits)

lemma element_run_0: "element_run ex n (x # xs) 0 = ex n x"
  by (simp add: element_run_def state_after_def)

lemma element_run_Suc:
  "element_run ex n (x # xs) (Suc j) = element_run ex (fst (snd (ex n x))) xs j"
  by (simp add: element_run_def state_after_def)

lemma state_after_Cons: "state_after ex n (x # xs) = state_after ex (fst (snd (ex n x))) xs"
  by (simp add: state_after_def)

lemma upt_Suc_shift: "map f [0..<Suc k] = f 0 # map (\<lambda>j. f (Suc j)) [0..<k]"
  by (simp add: upt_conv_Cons map_Suc_upt [symmetric] del: upt_Suc)

lemma gen_batch_loop_all_succeed:
  assumes "\<forall>j<length items. \<not> isl (fst (element_run ex n items j))"
  shows "gen_batch_loop ex n items acc =
     (Inr (acc @ map (\<lambda>j. projr (fst (element_run ex n items j))) [0..<length items]),
      state_after ex n items,
      concat (map (\<lambda>j. snd (snd (element_run ex n items j))) [0..<length items]))"
  using assms
proof (induction items arbitrary: n acc)
  case Nil
  then show ?case by (simp add: state_after_def)
next
  case (Cons x xs)
  from Cons.prems have "\<not> isl (fst (element_run ex n (x # xs) 0))" by auto
  then obtain r n1 tr where e0: "ex n x = (Inr r, n1, tr)"
    by (cases "ex n x"; cases "fst (ex n x)") (auto simp: element_run_0)
  have rest: "\<forall>j<length xs. \<not> isl (fst (element_run ex n1 xs j))"
  proof (intro allI impI)
    fix j assume "j < length xs"
    then have "\<not> isl (fst (element_run ex n (x # xs) (Suc j)))" using Cons.prems by auto
    then show "\<not> isl (fst (element_run ex n1 xs j))" by (simp add: element_run_Suc e0)
  qed
  note ih = Cons.IH [OF rest, of "acc @ [r]"]
  show ?case
    by (simp add: e0 ih upt_Suc_shift element_run_0 element_run_Suc state_after_Cons
        del: upt_Suc)
qed



lemma pure_exec: "pure_methods am f g \<Longrightarrow> exec_async am u p = (f p, u)"
  by (simp add: pure_methods_def)

lemma pure_fallback: "pure_methods am f g \<Longrightarrow> exec_fallback_async am u p e = (g p e, u)"
  by (simp add: pure_methods_def)

lemma pure_retry_loop:
  assumes "pure_methods am f g"
  shows "fst (async_retry_loop am N w p c u) = pure_result f g N w p c
       \<and> fst (snd (async_retry_loop am N w p c u)) = u"
  using assms
proof (induction am N w p c u rule: async_retry_loop.induct)
  case (1 am max_r wait_ms prep_res cur u)
  note pm = "1.prems"
  have ex: "exec_async am u prep_res = (f prep_res, u)" by (rule pure_exec [OF pm])
  show ?case
  proof (cases "cur < max_r")
    case False
    then show ?thesis
      by (subst (1 2) async_retry_loop.simps, subst pure_result.simps) simp
  next
    case lt: True
    show ?thesis
    proof (cases "f prep_res")
      case (Inr r)
      then show ?thesis
        using lt
        by (subst (1 2) async_retry_loop.simps, subst pure_result.simps) (simp add: ex)
    next
      case (Inl e)
      have ex': "(Inl e, u) = exec_async am u prep_res" using ex Inl by simp
      show ?thesis
      proof (cases "is_std e")
        case False
        then show ?thesis
          using lt Inl
          by (subst (1 2) async_retry_loop.simps, subst pure_result.simps) (simp add: ex)
      next
        case std: True
        show ?thesis
        proof (cases "max_r \<le> cur + 1")
          case True
          then show ?thesis
            using lt Inl std
            by (subst (1 2) async_retry_loop.simps, subst pure_result.simps)
               (simp add: ex pure_fallback [OF pm])
        next
          case more: False
          obtain out' u' tr' where
            rec: "async_retry_loop am max_r wait_ms prep_res (cur + 1) u = (out', u', tr')"
            by (cases "async_retry_loop am max_r wait_ms prep_res (cur + 1) u")
          show ?thesis
          proof (cases "0 < wait_ms")
            case False
            from "1.IH"(2) [OF lt ex' refl _ more False pm] std
            have "out' = pure_result f g max_r wait_ms prep_res (cur + 1)" and "u' = u"
              using rec by simp_all
            then show ?thesis
              using lt Inl std more False
              by (subst (1 2) async_retry_loop.simps, subst pure_result.simps)
                 (simp add: ex rec)
          next
            case pos: True
            show ?thesis
            proof (cases "backoff_time wait_ms (cur + 1)")
              case None
              then show ?thesis
                using lt Inl std more pos
                by (subst (1 2) async_retry_loop.simps, subst pure_result.simps) (simp add: ex)
            next
              case (Some d)
              from "1.IH"(1) [OF lt ex' refl _ more pos Some pm] std
              have "out' = pure_result f g max_r wait_ms prep_res (cur + 1)" and "u' = u"
                using rec by simp_all
              then show ?thesis
                using lt Inl std more pos Some
                by (subst (1 2) async_retry_loop.simps, subst pure_result.simps)
                   (simp add: ex rec)
            qed
          qed
        qed
      qed
    qed
  qed
qed

lemma pure_task_join:
  assumes "pure_methods am f g"
  shows "task_join am N w t u = (task_value f g N w t, u)"
proof (cases t)
  case (Running item cur)
  obtain out u' tr where l: "async_retry_loop am N w item cur u = (out, u', tr)"
    by (cases "async_retry_loop am N w item cur u")
  with pure_retry_loop [OF assms, of N w item cur u]
  have "out = pure_result f g N w item cur" "u' = u" by simp_all
  then show ?thesis using Running l by (simp add: task_join_def task_value_def)
next
  case (Done x)
  then show ?thesis by (simp add: task_join_def task_value_def)
qed

lemma pure_task_step:
  assumes "pure_methods am f g"
  shows "\<exists>t'. task_step am N w t u = (t', u) \<and> task_value f g N w t' = task_value f g N w t"
proof (cases t)
  case (Running item cur)
  then show ?thesis
    by (cases "f item")
       (auto simp: task_step_def task_value_def pure_result.simps [of f g N w item cur]
          pure_exec [OF assms] pure_fallback [OF assms])
next
  case (Done x)
  then show ?thesis by (simp add: task_step_def)
qed

lemma pure_run_schedule:
  assumes "pure_methods am f g"
  shows "\<exists>ts'. run_schedule am N w sched ts u = (ts', u)
           \<and> map (task_value f g N w) ts' = map (task_value f g N w) ts"
proof (induction sched arbitrary: ts)
  case Nil
  then show ?case by simp
next
  case (Cons i sched)
  show ?case
  proof (cases "i < length ts")
    case True
    from pure_task_step [OF assms, of N w "ts ! i" u]
    obtain t' where st: "task_step am N w (ts ! i) u = (t', u)"
      and tv: "task_value f g N w t' = task_value f g N w (ts ! i)" by blast
    from Cons.IH [of "ts[i := t']"]
    obtain ts' where r: "run_schedule am N w sched (ts[i := t']) u = (ts', u)"
      and m: "map (task_value f g N w) ts' = map (task_value f g N w) (ts[i := t'])" by blast
    have "map (task_value f g N w) (ts[i := t']) = map (task_value f g N w) ts"
      using tv True by (simp add: map_update list_update_same_conv)
    then show ?thesis using True st r m by simp
  next
    case False
    then show ?thesis using Cons.IH [of ts] by simp
  qed
qed

lemma pure_collect:
  assumes "pure_methods am f g"
  shows "fst (collect am N w ts acc u) = gather (map (task_value f g N w) ts) acc"
proof (induction ts arbitrary: acc)
  case Nil
  then show ?case by simp
next
  case (Cons t ts)
  show ?case
    by (cases "task_value f g N w t") (simp_all add: pure_task_join [OF assms] Cons.IH)
qed

lemma pure_AsyncNode__exec_async:
  assumes "pure_methods am f g"
  shows "\<exists>tr. AsyncNode__exec_async am n item = (pure_result f g (max_retries n) (wait n) item 0, n, tr)"
proof -
  obtain out u' tr where l: "async_retry_loop am (max_retries n) (wait n) item 0 (self n) = (out, u', tr)"
    by (cases "async_retry_loop am (max_retries n) (wait n) item 0 (self n)")
  with pure_retry_loop [OF assms, of "max_retries n" "wait n" item 0 "self n"]
  have "out = pure_result f g (max_retries n) (wait n) item 0" "u' = self n" by simp_all
  then show ?thesis using l by (simp add: AsyncNode__exec_async_def)
qed

lemma pure_async_batch_loop:
  assumes "pure_methods am f g"
  shows "fst (async_batch_loop am n xs acc)
           = gather (map (\<lambda>item. pure_result f g (max_retries n) (wait n) item 0) xs) acc"
proof (induction xs arbitrary: acc)
  case Nil
  then show ?case by simp
next
  case (Cons x xs)
  from pure_AsyncNode__exec_async [OF assms, of n x]
  obtain tr where e: "AsyncNode__exec_async am n x = (pure_result f g (max_retries n) (wait n) x 0, n, tr)"
    by blast
  show ?case
  proof (cases "pure_result f g (max_retries n) (wait n) x 0")
    case (Inl err)
    then show ?thesis by (simp add: e)
  next
    case (Inr r)
    obtain out n' tr' where rec: "async_batch_loop am n xs (acc @ [r]) = (out, n', tr')"
      by (cases "async_batch_loop am n xs (acc @ [r])")
    have "out = gather (map (\<lambda>item. pure_result f g (max_retries n) (wait n) item 0) xs) (acc @ [r])"
      using Cons.IH [of "acc @ [r]"] rec by simp
    then show ?thesis using Inr by (simp add: e rec)
  qed
qed

text \<open>
  C5. For methods that are pure functions of the element, the parallel batch node
  returns what the sequential batch node returns (the same array, element for element,
  or the same exception), whatever the schedule of the tasks.
\<close>

theorem parallel_batch_equals_sequential:
  assumes "pure_methods am f g"
  shows "fst (AsyncParallelBatchNode__exec_async sched am n items)
           = fst (AsyncBatchNode__exec_async am n items)"
proof (cases items)
  case (JArr xs)
  let ?N = "max_retries n"
  from pure_run_schedule [OF assms, of ?N "wait n" sched "map (\<lambda>item. Running item 0) xs" "self n"]
  obtain ts where r: "run_schedule am ?N (wait n) sched (map (\<lambda>item. Running item 0) xs) (self n) = (ts, self n)"
    and m: "map (task_value f g ?N (wait n)) ts = map (task_value f g ?N (wait n)) (map (\<lambda>item. Running item 0) xs)"
    by blast
  have m': "map (task_value f g ?N (wait n)) ts = map (\<lambda>item. pure_result f g ?N (wait n) item 0) xs"
    using m by (simp add: task_value_def comp_def)
  have par: "fst (collect am ?N (wait n) ts [] (self n))
               = gather (map (\<lambda>item. pure_result f g ?N (wait n) item 0) xs) []"
    using pure_collect [OF assms, of ?N "wait n" ts "[]" "self n"] m' by simp
  have seq: "fst (async_batch_loop am n xs [])
               = gather (map (\<lambda>item. pure_result f g ?N (wait n) item 0) xs) []"
    by (rule pure_async_batch_loop [OF assms])
  let ?G = "gather (map (\<lambda>item. pure_result f g ?N (wait n) item 0) xs) []"
  obtain u2 where c: "collect am ?N (wait n) ts [] (self n) = (?G, u2)"
    using par by (cases "collect am ?N (wait n) ts [] (self n)") simp
  obtain n2 tr2 where b: "async_batch_loop am n xs [] = (?G, n2, tr2)"
    using seq by (cases "async_batch_loop am n xs []") simp
  show ?thesis
    by (cases ?G)
       (simp_all add: JArr r c b AsyncParallelBatchNode__exec_async_def
          AsyncBatchNode__exec_async_def)
qed (auto simp: AsyncParallelBatchNode__exec_async_def AsyncBatchNode__exec_async_def
        split: prod.splits sum.splits)


text \<open>
  C4. When the retry-wrapped \<open>exec\<close> returns a value for every element of the array
  (each run in the state the elements before it have left), the batch \<open>_exec\<close> returns
  an array of the same length whose element \<open>j\<close> is the value returned for element \<open>j\<close>,
  and its events are the events of element 0, then those of element 1, and so on: an
  element is finished before the next one starts.
\<close>

theorem batch_exec_in_input_order:
  assumes "\<forall>j<length items. \<not> isl (fst (element_run (Node__exec m) n items j))"
  shows "\<exists>results. BatchNode__exec m n (JArr items) =
            (Inr (JArr results), state_after (Node__exec m) n items,
             concat (map (\<lambda>j. snd (snd (element_run (Node__exec m) n items j)))
                       [0..<length items]))
         \<and> length results = length items
         \<and> (\<forall>j<length items. fst (element_run (Node__exec m) n items j) = Inr (results ! j))"
proof -
  let ?rs = "map (\<lambda>j. projr (fst (element_run (Node__exec m) n items j))) [0..<length items]"
  have "batch_loop m n items [] =
     (Inr ?rs, state_after (Node__exec m) n items,
      concat (map (\<lambda>j. snd (snd (element_run (Node__exec m) n items j))) [0..<length items]))"
    using gen_batch_loop_all_succeed [OF assms, of "[]"] by (simp add: batch_loop_gen)
  then have run: "BatchNode__exec m n (JArr items) =
     (Inr (JArr ?rs), state_after (Node__exec m) n items,
      concat (map (\<lambda>j. snd (snd (element_run (Node__exec m) n items j))) [0..<length items]))"
    by (simp add: BatchNode__exec_def)
  have len: "length ?rs = length items" by simp
  have el: "\<forall>j<length items. fst (element_run (Node__exec m) n items j) = Inr (?rs ! j)"
  proof (intro allI impI)
    fix j assume j: "j < length items"
    then have "\<not> isl (fst (element_run (Node__exec m) n items j))" using assms by blast
    then have "fst (element_run (Node__exec m) n items j)
                 = Inr (projr (fst (element_run (Node__exec m) n items j)))"
      by (cases "fst (element_run (Node__exec m) n items j)") simp_all
    then show "fst (element_run (Node__exec m) n items j) = Inr (?rs ! j)" using j by simp
  qed
  show ?thesis using run len el by blast
qed

text \<open>The same for \<open>AsyncBatchNode::_exec_async\<close>.\<close>

lemma async_batch_in_input_order:
  assumes "\<forall>j<length items. \<not> isl (fst (element_run (AsyncNode__exec_async am) n items j))"
  shows "\<exists>results. AsyncBatchNode__exec_async am n (JArr items) =
            (Inr (JArr results), state_after (AsyncNode__exec_async am) n items,
             concat (map (\<lambda>j. snd (snd (element_run (AsyncNode__exec_async am) n items j)))
                       [0..<length items]))
         \<and> length results = length items
         \<and> (\<forall>j<length items.
               fst (element_run (AsyncNode__exec_async am) n items j) = Inr (results ! j))"
proof -
  let ?ex = "AsyncNode__exec_async am"
  let ?rs = "map (\<lambda>j. projr (fst (element_run ?ex n items j))) [0..<length items]"
  have "async_batch_loop am n items [] =
     (Inr ?rs, state_after ?ex n items,
      concat (map (\<lambda>j. snd (snd (element_run ?ex n items j))) [0..<length items]))"
    using gen_batch_loop_all_succeed [OF assms, of "[]"] by (simp add: async_batch_loop_gen)
  then have run: "AsyncBatchNode__exec_async am n (JArr items) =
     (Inr (JArr ?rs), state_after ?ex n items,
      concat (map (\<lambda>j. snd (snd (element_run ?ex n items j))) [0..<length items]))"
    by (simp add: AsyncBatchNode__exec_async_def)
  have len: "length ?rs = length items" by simp
  have el: "\<forall>j<length items. fst (element_run ?ex n items j) = Inr (?rs ! j)"
  proof (intro allI impI)
    fix j assume j: "j < length items"
    then have "\<not> isl (fst (element_run ?ex n items j))" using assms by blast
    then have "fst (element_run ?ex n items j) = Inr (projr (fst (element_run ?ex n items j)))"
      by (cases "fst (element_run ?ex n items j)") simp_all
    then show "fst (element_run ?ex n items j) = Inr (?rs ! j)" using j by simp
  qed
  show ?thesis using run len el by blast
qed

theorem batch_exec_in_input_order_witness:
  "\<not> isl (fst (element_run (Node__exec indexed) batch_node [JInt 5, JInt 6, JInt 7] 0))
   \<and> \<not> isl (fst (element_run (Node__exec indexed) batch_node [JInt 5, JInt 6, JInt 7] 1))
   \<and> \<not> isl (fst (element_run (Node__exec indexed) batch_node [JInt 5, JInt 6, JInt 7] 2))
   \<and> BatchNode__exec indexed batch_node (JArr [JInt 5, JInt 6, JInt 7]) =
        (Inr (JArr [JInt 50, JInt 61, JInt 72]), batch_node\<lparr>self := 3\<rparr>,
         [ExecCall (JInt 5), ExecCall (JInt 6), ExecCall (JInt 7)])"
proof -
  let ?items = "[JInt 5, JInt 6, JInt 7]"
  have e0: "element_run (Node__exec indexed) batch_node ?items 0
              = (Inr (JInt 50), batch_node\<lparr>self := 1\<rparr>, [ExecCall (JInt 5)])"
    by (simp add: element_run_def state_after_def Node__exec_def retry_loop.simps
        indexed_def indexed_exec_def batch_node_def)
  have e1: "element_run (Node__exec indexed) batch_node ?items 1
              = (Inr (JInt 61), batch_node\<lparr>self := 2\<rparr>, [ExecCall (JInt 6)])"
    by (simp add: element_run_def state_after_def Node__exec_def retry_loop.simps
        indexed_def indexed_exec_def batch_node_def)
  have e2: "element_run (Node__exec indexed) batch_node ?items 2
              = (Inr (JInt 72), batch_node\<lparr>self := 3\<rparr>, [ExecCall (JInt 7)])"
    by (simp add: element_run_def state_after_def Node__exec_def retry_loop.simps
        indexed_def indexed_exec_def batch_node_def numeral_2_eq_2)
  have h: "\<forall>j<length ?items. \<not> isl (fst (element_run (Node__exec indexed) batch_node ?items j))"
  proof (intro allI impI)
    fix j assume "j < length ?items"
    then have "j = 0 \<or> j = 1 \<or> j = 2" by auto
    then show "\<not> isl (fst (element_run (Node__exec indexed) batch_node ?items j))"
      using e0 e1 e2 by auto
  qed
  from batch_exec_in_input_order [OF h]
  obtain results where
    run: "BatchNode__exec indexed batch_node (JArr ?items) =
            (Inr (JArr results), state_after (Node__exec indexed) batch_node ?items,
             concat (map (\<lambda>j. snd (snd (element_run (Node__exec indexed) batch_node ?items j)))
                       [0..<length ?items]))"
    and len: "length results = length ?items"
    and el: "\<forall>j<length ?items.
               fst (element_run (Node__exec indexed) batch_node ?items j) = Inr (results ! j)"
    by blast
  have r0: "results ! 0 = JInt 50" using el [rule_format, of 0] e0 by simp
  have r1: "results ! 1 = JInt 61" using el [rule_format, of 1] e1 by simp
  have r2: "results ! 2 = JInt 72" using el [rule_format, of 2] e2 by simp
  have rs: "results = [JInt 50, JInt 61, JInt 72]"
    using len r0 r1 r2
    by (auto simp: list_eq_iff_nth_eq less_Suc_eq numeral_2_eq_2 numeral_3_eq_3)
  have st: "state_after (Node__exec indexed) batch_node ?items = batch_node\<lparr>self := 3\<rparr>"
    by (simp add: state_after_def Node__exec_def retry_loop.simps
        indexed_def indexed_exec_def batch_node_def)
  have tr: "concat (map (\<lambda>j. snd (snd (element_run (Node__exec indexed) batch_node ?items j)))
                       [0..<length ?items])
              = [ExecCall (JInt 5), ExecCall (JInt 6), ExecCall (JInt 7)]"
    using e0 e1 e2 by (simp add: upt_rec numeral_2_eq_2 [symmetric])
  show ?thesis using run rs st tr e0 e1 e2 by simp
qed

theorem parallel_batch_equals_sequential_witness:
  "pure_methods doubling double_exec skip_fallback
   \<and> fst (AsyncParallelBatchNode__exec_async [2, 1, 0, 1, 2] doubling
             \<lparr>max_retries = 2, wait = 0, cur_retry = 0, self = ()\<rparr>
             (JArr [JInt 1, JStr ''x'', JInt 3]))
       = Inr (JArr [JInt 2, JStr ''skipped'', JInt 6])
   \<and> fst (AsyncBatchNode__exec_async doubling
             \<lparr>max_retries = 2, wait = 0, cur_retry = 0, self = ()\<rparr>
             (JArr [JInt 1, JStr ''x'', JInt 3]))
       = Inr (JArr [JInt 2, JStr ''skipped'', JInt 6])"
proof -
  let ?n = "\<lparr>max_retries = 2, wait = 0, cur_retry = 0, self = ()\<rparr>"
  let ?items = "JArr [JInt 1, JStr ''x'', JInt 3]"
  have p: "pure_methods doubling double_exec skip_fallback"
    by (simp add: pure_methods_def doubling_def)
  have s: "fst (AsyncBatchNode__exec_async doubling ?n ?items)
       = Inr (JArr [JInt 2, JStr ''skipped'', JInt 6])"
    by (simp add: AsyncBatchNode__exec_async_def AsyncNode__exec_async_def
        async_retry_loop.simps doubling_def double_exec_def skip_fallback_def)
  from parallel_batch_equals_sequential [OF p, of "[2, 1, 0, 1, 2]" ?n ?items] s
  have "fst (AsyncParallelBatchNode__exec_async [2, 1, 0, 1, 2] doubling ?n ?items)
       = Inr (JArr [JInt 2, JStr ''skipped'', JInt 6])"
    by simp
  then show ?thesis using p s by simp
qed

section \<open>Asynchronous retry controller\<close>

text \<open>
  The loop of \<open>AsyncNode::_exec_async\<close> is the loop of \<open>Node::_exec\<close> over the
  asynchronous methods, so what holds of the one holds of the other, for the values of
  \<open>max_retries_\<close> and \<open>wait_\<close> the object has: success after \<open>k\<close> failures, the fallback
  after \<open>max_retries_\<close> failures, and the sleeps in between.
\<close>

lemma async_retry_loop_sync:
  "cur < max_r \<Longrightarrow>
   async_retry_loop am max_r w p cur u =
     (case retry_loop (as_sync am) max_r w p cur u of (out, c, u', tr) \<Rightarrow> (out, u', tr))"
proof (induction am max_r w p cur u rule: async_retry_loop.induct)
  case (1 am max_r wait_ms prep_res cur u)
  note lt = "1.prems"
  have e: "exec (as_sync am) = exec_async am"
    and f: "exec_fallback (as_sync am) = exec_fallback_async am" by (simp_all add: as_sync_def)
  obtain x u' where ex: "exec_async am u prep_res = (x, u')"
    by (cases "exec_async am u prep_res")
  have ex': "(x, u') = exec_async am u prep_res" using ex by simp
  show ?case
  proof (cases x)
    case (Inr r)
    then show ?thesis
      using lt ex
      by (subst async_retry_loop.simps, subst retry_loop.simps) (simp add: e)
  next
    case (Inl err)
    show ?thesis
    proof (cases "is_std err")
      case False
      then show ?thesis
        using lt ex Inl
        by (subst async_retry_loop.simps, subst retry_loop.simps) (simp add: e)
    next
      case std: True
      show ?thesis
      proof (cases "max_r \<le> cur + 1")
        case True
        then show ?thesis
          using lt ex Inl std
          by (subst async_retry_loop.simps, subst retry_loop.simps)
             (simp add: e f split: prod.splits)
      next
        case more: False
        then have lt': "cur + 1 < max_r" by simp
        show ?thesis
        proof (cases "0 < wait_ms")
          case False
          from "1.IH"(2) [OF lt ex' Inl _ more False lt'] std
          have ih: "async_retry_loop am max_r wait_ms prep_res (cur + 1) u' =
             (case retry_loop (as_sync am) max_r wait_ms prep_res (cur + 1) u' of
                (out, c, u', tr) \<Rightarrow> (out, u', tr))" by simp
          show ?thesis
            using lt ex Inl std more False
            by (subst async_retry_loop.simps, subst retry_loop.simps)
               (simp add: ih e split: prod.splits)
        next
          case pos: True
          show ?thesis
          proof (cases "backoff_time wait_ms (cur + 1)")
            case None
            then show ?thesis
              using lt ex Inl std more pos
              by (subst async_retry_loop.simps, subst retry_loop.simps) (simp add: e)
          next
            case (Some d)
            from "1.IH"(1) [OF lt ex' Inl _ more pos Some lt'] std
            have ih: "async_retry_loop am max_r wait_ms prep_res (cur + 1) u' =
               (case retry_loop (as_sync am) max_r wait_ms prep_res (cur + 1) u' of
                  (out, c, u', tr) \<Rightarrow> (out, u', tr))" by simp
            show ?thesis
              using lt ex Inl std more pos Some
              by (subst async_retry_loop.simps, subst retry_loop.simps)
                 (simp add: ih e split: prod.splits)
          qed
        qed
      qed
    qed
  qed
qed

lemma AsyncNode__exec_async_sync:
  assumes "0 < max_retries n"
  shows "AsyncNode__exec_async am n p =
     (case Node__exec (as_sync am) n p of (out, n', tr) \<Rightarrow> (out, n\<lparr>self := self n'\<rparr>, tr))"
  using async_retry_loop_sync [OF assms, of am "wait n" p "self n"]
  by (simp add: AsyncNode__exec_async_def Node__exec_def split: prod.splits)

lemma AsyncNode__exec_async_success:
  assumes "int k < max_retries n"
    and "\<forall>i<k. std_failure (fst (exec_seq (exec_async am) p (self n) i))"
    and "exec_seq (exec_async am) p (self n) k = (Inr r, uf)"
    and "0 < wait n \<longrightarrow> 0 < k \<longrightarrow> wait n * 2 ^ (k - 1) < 2 ^ 31"
  shows "AsyncNode__exec_async am n p =
           (Inr r, n\<lparr>self := uf\<rparr>, failed_attempts (wait n) p 0 k @ [ExecCall p])"
proof -
  have pos: "0 < max_retries n" using assms(1) by linarith
  have e: "exec (as_sync am) = exec_async am" by (simp add: as_sync_def)
  have "Node__exec (as_sync am) n p =
           (Inr r, n\<lparr>cur_retry := 0, self := uf\<rparr>, failed_attempts (wait n) p 0 k @ [ExecCall p])"
    by (rule Node__exec_success [OF assms(1) _ _ assms(4)]) (simp_all add: e assms(2,3))
  then show ?thesis by (simp add: AsyncNode__exec_async_sync [OF pos])
qed

lemma AsyncNode__exec_async_exhausted:
  assumes "max_retries n = int (Suc k)"
    and "\<forall>i<k. std_failure (fst (exec_seq (exec_async am) p (self n) i))"
    and "exec_seq (exec_async am) p (self n) k = (Inl e, uf)" and "is_std e"
    and "0 < wait n \<longrightarrow> 0 < k \<longrightarrow> wait n * 2 ^ (k - 1) < 2 ^ 31"
  shows "AsyncNode__exec_async am n p =
           (fst (exec_fallback_async am uf p e),
            n\<lparr>self := snd (exec_fallback_async am uf p e)\<rparr>,
            failed_attempts (wait n) p 0 k @ [ExecCall p, FallbackCall p e])"
proof -
  have pos: "0 < max_retries n" using assms(1) by linarith
  have e: "exec (as_sync am) = exec_async am"
    and f: "exec_fallback (as_sync am) = exec_fallback_async am" by (simp_all add: as_sync_def)
  have "Node__exec (as_sync am) n p =
           (fst (exec_fallback (as_sync am) uf p e),
            n\<lparr>cur_retry := max_retries n, self := snd (exec_fallback (as_sync am) uf p e)\<rparr>,
            failed_attempts (wait n) p 0 k @ [ExecCall p, FallbackCall p e])"
    by (rule Node__exec_exhausted [OF assms(1) _ _ assms(4,5)]) (simp_all add: e assms(2,3))
  then show ?thesis by (simp add: AsyncNode__exec_async_sync [OF pos] f)
qed

lemma AsyncNode__exec_async_sleeps:
  assumes "int k < max_retries n"
    and "\<forall>i<k. std_failure (fst (exec_seq (exec_async am) p (self n) i))"
    and "0 < wait n \<longrightarrow> 0 < k \<longrightarrow> wait n * 2 ^ (k - 1) < 2 ^ 31"
  shows "\<exists>rest. snd (snd (AsyncNode__exec_async am n p)) = spec_failed_attempts (wait n) p k @ rest"
proof -
  have pos: "0 < max_retries n" using assms(1) by linarith
  have e: "exec (as_sync am) = exec_async am" by (simp add: as_sync_def)
  have "\<exists>rest. snd (snd (Node__exec (as_sync am) n p)) = spec_failed_attempts (wait n) p k @ rest"
    by (rule Node__exec_sleeps [OF assms(1) _ assms(3)]) (simp add: e assms(2))
  then show ?thesis
    by (auto simp: AsyncNode__exec_async_sync [OF pos] split: prod.splits)
qed

text \<open>
  An object of a class derived from \<open>AsyncNode\<close> that leaves the virtual base to its
  default constructor makes one attempt and never sleeps, whatever was passed to the
  constructor of \<open>AsyncNode\<close>.
\<close>

lemma derived_ctor_one_attempt:
  "AsyncNode__exec_async am (derived_ctor max_r wait_ms u) p =
     (case exec_async am u p of
        (Inr r, u') \<Rightarrow> (Inr r, Node_ctor 1 0 u', [ExecCall p])
      | (Inl e, u') \<Rightarrow>
          (if is_std e then
             (case exec_fallback_async am u' p e of
                (out, u'') \<Rightarrow> (out, Node_ctor 1 0 u'', [ExecCall p, FallbackCall p e]))
           else (Inl e, Node_ctor 1 0 u', [ExecCall p])))"
  by (subst AsyncNode__exec_async_def, subst async_retry_loop.simps)
     (simp add: derived_ctor_def Node_ctor_def split: prod.splits sum.splits)

end
